theory Spec2Isabelle
  imports Main "HOL-Library.Sublist"
begin

section \<open>The visualization workflow notebook\<close>

text \<open>
  The repository holds one program, the notebook \<^verbatim>\<open>helpful-code/workflow.ipynb\<close>. Its
  code cells are modelled in the order in which they stand in the file, executed from top
  to bottom, the execution ending at the first exception (the behaviour of running all
  cells, or of the script the notebook tells the reader to derive from it).

  Everything the notebook calls lives in libraries that are not part of the repository
  (pathlib, geopandas, pdgstaging, pdgraster). Their answers are taken from a record of
  functions, \<open>world\<close>, about which nothing is assumed unless a theorem says so.
\<close>

subsection \<open>Python values\<close>

text \<open>
  A float literal is kept as written, mantissa and decimal exponent (\<open>0.1\<close> is
  \<open>PFloat 1 (-1)\<close>): the notebook computes nothing with it. The keys of every dictionary
  of the notebook are strings; a dictionary keeps the order in which its keys were
  inserted.
\<close>

datatype pyval =
    PBool bool
  | PInt int
  | PFloat int int
  | PStr string
  | PList "pyval list"
  | PTuple "pyval list"
  | PDict "(string \<times> pyval) list"

type_synonym dict = "(string \<times> pyval) list"

datatype exn =
    IndexError
  | NameError string
  | LibraryError string

text \<open>Storing under a key that is present replaces the value and keeps the position.\<close>

fun dict_set :: "dict \<Rightarrow> string \<Rightarrow> pyval \<Rightarrow> dict" where
  "dict_set [] k v = [(k, v)]"
| "dict_set ((k', v') # d) k v = (if k' = k then (k, v) # d else (k', v') # dict_set d k v)"

text \<open>A dictionary display \<open>{k1: v1, k2: v2, ...}\<close> inserts its items from left to right.\<close>

definition dict_display :: "(string \<times> pyval) list \<Rightarrow> dict" where
  "dict_display items = foldl (\<lambda>d (k, v). dict_set d k v) [] items"

definition dict_get :: "dict \<Rightarrow> string \<Rightarrow> pyval option" where
  "dict_get d k = map_of d k"

definition dict_keys :: "dict \<Rightarrow> string list" where
  "dict_keys d = map fst d"

text \<open>Indexing a list, \<open>xs[i]\<close>: a negative index counts from the end.\<close>

definition py_index :: "'a list \<Rightarrow> int \<Rightarrow> exn + 'a" where
  "py_index xs i =
     (if 0 \<le> i \<and> i < int (length xs) then Inr (xs ! nat i)
      else if i < 0 \<and> - int (length xs) \<le> i then Inr (xs ! nat (int (length xs) + i))
      else Inl IndexError)"

subsection \<open>Paths and globbing on a POSIX system\<close>

text \<open>
  \<open>Path(s)\<close> on a POSIX system: the root is \<open>//\<close> for exactly two leading slashes,
  \<open>/\<close> for any other number of them; empty components and \<open>.\<close> are dropped.
  \<open>as_posix\<close> writes the path back with forward slashes.
\<close>

datatype path = PosixPath (root: string) (parts: "string list")

fun split_on :: "char \<Rightarrow> string \<Rightarrow> string list" where
  "split_on c [] = [[]]"
| "split_on c (x # xs) =
     (if x = c then [] # split_on c xs
      else (case split_on c xs of [] \<Rightarrow> [[x]] | r # rs \<Rightarrow> (x # r) # rs))"

fun join_with :: "string \<Rightarrow> string list \<Rightarrow> string" where
  "join_with sep [] = []"
| "join_with sep [x] = x"
| "join_with sep (x # y # ys) = x @ sep @ join_with sep (y # ys)"

definition Path :: "string \<Rightarrow> path" where
  "Path s =
     (let n = length (takeWhile (\<lambda>c. c = CHR ''/'') s)
      in PosixPath (if n = 0 then [] else if n = 2 then ''//'' else ''/'')
           (filter (\<lambda>p. p \<noteq> [] \<and> p \<noteq> ''.'') (split_on CHR ''/'' s)))"

definition as_posix :: "path \<Rightarrow> string" where
  "as_posix p =
     (if root p = [] \<and> parts p = [] then ''.'' else root p @ join_with ''/'' (parts p))"

text \<open>
  Matching one file name against one pattern component, case-sensitively: \<open>*\<close> stands for
  any run of characters, \<open>?\<close> for any one character, every other character for itself.
  (Bracket expressions are not modelled; the notebook's only pattern has none.)
\<close>

fun fnmatchcase :: "string \<Rightarrow> string \<Rightarrow> bool" where
  "fnmatchcase n [] = (n = [])"
| "fnmatchcase n (c # p) =
     (if c = CHR ''*''
      then fnmatchcase n p \<or> (case n of [] \<Rightarrow> False | _ # t \<Rightarrow> fnmatchcase t (c # p))
      else (case n of [] \<Rightarrow> False | d # t \<Rightarrow> (c = CHR ''?'' \<or> c = d) \<and> fnmatchcase t p))"

text \<open>
  Matching the components of a path below the base directory against the components of a
  pattern: \<open>**\<close> stands for any number of directories, none included.
\<close>

fun match_parts :: "string list \<Rightarrow> string list \<Rightarrow> bool" where
  "match_parts [] cs = (cs = [])"
| "match_parts (p # ps) cs =
     (if p = ''**''
      then match_parts ps cs \<or> (case cs of [] \<Rightarrow> False | _ # t \<Rightarrow> match_parts (p # ps) t)
      else (case cs of [] \<Rightarrow> False | c # t \<Rightarrow> fnmatchcase c p \<and> match_parts ps t))"

text \<open>
  \<open>base.glob(pattern)\<close> over a file system given as the list of its entries, in the
  order in which the directory scan meets them: the entries below \<open>base\<close> whose relative
  components match the pattern.
\<close>

definition below :: "path \<Rightarrow> path \<Rightarrow> bool" where
  "below base p \<longleftrightarrow> root p = root base \<and> prefix (parts base) (parts p)"

definition glob_entries :: "path list \<Rightarrow> path \<Rightarrow> string \<Rightarrow> path list" where
  "glob_entries fs base pattern =
     filter (\<lambda>p. below base p \<and>
                 match_parts (filter (\<lambda>c. c \<noteq> []) (split_on CHR ''/'' pattern))
                             (drop (length (parts base)) (parts p))) fs"

subsection \<open>The libraries and the state of the notebook\<close>

text \<open>
  The objects the libraries hand back (data frames, plot axes, the stager, the rasterizer)
  are opaque to the notebook: it only passes them on.
\<close>

datatype frame = Frame nat
datatype axes = Axes nat
datatype tile_stager = Stager nat
datatype raster_tiler = Tiler nat

text \<open>
  The dictionaries built by the notebook live in a heap and are passed by reference, as
  Python passes them: an address is an index into the heap. A call of a library is logged
  with its arguments and with what came of it; for the two constructors the log keeps the
  reference they were given and the contents it had at that moment.
\<close>

type_synonym heap = "dict list"

definition heap_get :: "heap \<Rightarrow> nat \<Rightarrow> dict option" where
  "heap_get h a = (if a < length h then Some (h ! a) else None)"

datatype call =
    Import string
  | Glob path string
  | ReadFile string
  | Plot frame "axes option" "(string \<times> pyval) list"
  | NewTileStager nat "dict option"
  | StageAll tile_stager
  | NewRasterTiler nat "dict option"
  | RasterizeAll raster_tiler

datatype outcome = Returned | Raised exn

type_synonym event = "call \<times> outcome"

text \<open>
  What a library answers may depend on everything that was called before (the log), and
  the stager and the rasterizer, which hold the reference to the configuration, may write
  to the heap, also when they raise.
\<close>

record world =
  import_module :: "event list \<Rightarrow> string \<Rightarrow> exn + unit"
  path_glob :: "event list \<Rightarrow> path \<Rightarrow> string \<Rightarrow> exn + path list"
  read_file :: "event list \<Rightarrow> string \<Rightarrow> exn + frame"
  plot :: "event list \<Rightarrow> frame \<Rightarrow> axes option \<Rightarrow> (string \<times> pyval) list \<Rightarrow> exn + axes"
  TileStager :: "event list \<Rightarrow> nat \<Rightarrow> heap \<Rightarrow> heap \<times> (exn + tile_stager)"
  stage_all :: "event list \<Rightarrow> tile_stager \<Rightarrow> heap \<Rightarrow> heap \<times> (exn + unit)"
  RasterTiler :: "event list \<Rightarrow> nat \<Rightarrow> heap \<Rightarrow> heap \<times> (exn + raster_tiler)"
  rasterize_all :: "event list \<Rightarrow> raster_tiler \<Rightarrow> heap \<Rightarrow> heap \<times> (exn + unit)"

text \<open>The global variables of the notebook (unbound: \<open>None\<close>), the heap and the log.\<close>

record state =
  data_dir :: "string option"
  base_dir :: "path option"
  filename :: "string option"
  input :: "string list option"
  base_dir_fp :: "path option"
  fps :: "string list option"
  shp :: "frame option"
  footprint :: "frame option"
  ax :: "axes option"
  shp1 :: "frame option"
  shp2 :: "frame option"
  config :: "nat option"
  stager :: "tile_stager option"
  heap :: heap
  trace :: "event list"

definition fresh_kernel :: state where
  "fresh_kernel =
     \<lparr>data_dir = None, base_dir = None, filename = None, input = None, base_dir_fp = None,
      fps = None, shp = None, footprint = None, ax = None, shp1 = None, shp2 = None,
      config = None, stager = None, heap = [], trace = []\<rparr>"

subsection \<open>Statements\<close>

text \<open>
  A piece of code takes the state to a new state and either a value or the exception it
  raised. There is no construct that catches an exception: the notebook has no
  \<open>try\<close> statement.
\<close>

type_synonym 'a prog = "state \<Rightarrow> state \<times> (exn + 'a)"

definition ret :: "'a \<Rightarrow> 'a prog" where
  "ret x = (\<lambda>s. (s, Inr x))"

definition bind :: "'a prog \<Rightarrow> ('a \<Rightarrow> 'b prog) \<Rightarrow> 'b prog" where
  "bind m f = (\<lambda>s. case m s of (s', Inl e) \<Rightarrow> (s', Inl e) | (s', Inr x) \<Rightarrow> f x s')"

definition lift :: "exn + 'a \<Rightarrow> 'a prog" where
  "lift r = (\<lambda>s. (s, r))"

text \<open>Reading a variable: an unbound name raises \<open>NameError\<close>.\<close>

definition load :: "(state \<Rightarrow> 'a option) \<Rightarrow> string \<Rightarrow> 'a prog" where
  "load var name = (\<lambda>s. case var s of None \<Rightarrow> (s, Inl (NameError name)) | Some x \<Rightarrow> (s, Inr x))"

text \<open>An assignment \<open>var = x\<close>; \<open>upd\<close> is the update function of the variable's field.\<close>

definition assign :: "(('a option \<Rightarrow> 'a option) \<Rightarrow> state \<Rightarrow> state) \<Rightarrow> 'a \<Rightarrow> unit prog" where
  "assign upd x = (\<lambda>s. (upd (\<lambda>_. Some x) s, Inr ()))"

definition outcome_of :: "exn + 'a \<Rightarrow> outcome" where
  "outcome_of r = (case r of Inl e \<Rightarrow> Raised e | Inr _ \<Rightarrow> Returned)"

text \<open>Calling a library that has no reference into the heap, and one that has.\<close>

definition lib_call :: "call \<Rightarrow> (event list \<Rightarrow> exn + 'a) \<Rightarrow> 'a prog" where
  "lib_call c f =
     (\<lambda>s. let r = f (trace s) in (s\<lparr>trace := trace s @ [(c, outcome_of r)]\<rparr>, r))"

definition lib_call_heap :: "call \<Rightarrow> (event list \<Rightarrow> heap \<Rightarrow> heap \<times> (exn + 'a)) \<Rightarrow> 'a prog" where
  "lib_call_heap c f =
     (\<lambda>s. case f (trace s) (heap s) of
             (h, r) \<Rightarrow> (s\<lparr>heap := h, trace := trace s @ [(c, outcome_of r)]\<rparr>, r))"

text \<open>
  The same, for a constructor that is given a reference: the log keeps the reference and
  what it points to when the call is made.
\<close>

definition lib_call_ref ::
  "(nat \<Rightarrow> dict option \<Rightarrow> call) \<Rightarrow> (event list \<Rightarrow> nat \<Rightarrow> heap \<Rightarrow> heap \<times> (exn + 'a)) \<Rightarrow> nat \<Rightarrow> 'a prog" where
  "lib_call_ref mk f a = (\<lambda>s. lib_call_heap (mk a (heap_get (heap s) a)) (\<lambda>h. f h a) s)"

text \<open>Evaluating a dictionary display allocates a new object.\<close>

definition new_dict :: "dict \<Rightarrow> nat prog" where
  "new_dict d = (\<lambda>s. (s\<lparr>heap := heap s @ [d]\<rparr>, Inr (length (heap s))))"

text \<open>
  Statements, and cells, run one after the other; the first exception ends the run.
\<close>

fun in_order :: "unit prog list \<Rightarrow> unit prog" where
  "in_order [] s = (s, Inr ())"
| "in_order (c # cs) s =
     (case c s of (s', Inl e) \<Rightarrow> (s', Inl e) | (s', Inr _) \<Rightarrow> in_order cs s')"

subsection \<open>The cells of the notebook\<close>

text \<open>The import cell: eleven import statements.\<close>

definition import_stmt :: "world \<Rightarrow> string \<Rightarrow> unit prog" where
  "import_stmt w m = lib_call (Import m) (\<lambda>h. import_module w h m)"

definition cell_imports :: "world \<Rightarrow> unit prog" where
  "cell_imports w =
     in_order (map (import_stmt w)
       [''pathlib'', ''os'', ''geopandas'', ''pdgstaging'', ''pdgstaging'', ''pdgraster'',
        ''pdgraster'', ''datetime'', ''logging'', ''logging.handlers'', ''pdgstaging''])"

text \<open>
  \<^verbatim>\<open>input = [p.as_posix() for p in base_dir.glob('**/' + filename)]\<close> and its twin
  for the footprints.
\<close>

definition glob_stmt ::
  "world \<Rightarrow> (state \<Rightarrow> path option) \<Rightarrow> string \<Rightarrow>
   ((string list option \<Rightarrow> string list option) \<Rightarrow> state \<Rightarrow> state) \<Rightarrow> unit prog" where
  "glob_stmt w dir dir_name upd =
     bind (load dir dir_name) (\<lambda>b.
     bind (load filename ''filename'') (\<lambda>f.
     bind (lib_call (Glob b (''**/'' @ f)) (\<lambda>h. path_glob w h b (''**/'' @ f))) (\<lambda>ps.
     assign upd (map as_posix ps))))"

text \<open>An expression that ends a cell is evaluated and shown.\<close>

definition display :: "(state \<Rightarrow> 'a option) \<Rightarrow> string \<Rightarrow> unit prog" where
  "display var name = bind (load var name) (\<lambda>_. ret ())"

definition cell_input :: "world \<Rightarrow> unit prog" where
  "cell_input w =
     in_order
       [assign data_dir_update ''/home/jcohen/testing/testing_datasets/iwp_3_files/'',
        bind (load data_dir ''data_dir'') (\<lambda>d. assign base_dir_update (Path (d @ ''iwp''))),
        assign filename_update ''*.shp'',
        glob_stmt w base_dir ''base_dir'' input_update,
        display input ''input'']"

definition cell_fps :: "world \<Rightarrow> unit prog" where
  "cell_fps w =
     in_order
       [bind (load data_dir ''data_dir'') (\<lambda>d.
          assign base_dir_fp_update (Path (d @ ''footprints''))),
        glob_stmt w base_dir_fp ''base_dir_fp'' fps_update,
        display fps ''fps'']"

text \<open>
  \<^verbatim>\<open>var = gpd.read_file(files[i])\<close>, \<^verbatim>\<open>ax = var.plot(...)\<close> and
  \<^verbatim>\<open>var.plot(ax=ax, ...)\<close>. The keyword arguments other than \<open>ax\<close> are kept in
  the order written.
\<close>

definition read_file_stmt ::
  "world \<Rightarrow> (state \<Rightarrow> string list option) \<Rightarrow> string \<Rightarrow> int \<Rightarrow>
   ((frame option \<Rightarrow> frame option) \<Rightarrow> state \<Rightarrow> state) \<Rightarrow> unit prog" where
  "read_file_stmt w files files_name i upd =
     bind (load files files_name) (\<lambda>xs.
     bind (lift (py_index xs i)) (\<lambda>p.
     bind (lib_call (ReadFile p) (\<lambda>h. read_file w h p)) (\<lambda>fr.
     assign upd fr)))"

definition plot_new_stmt ::
  "world \<Rightarrow> (state \<Rightarrow> frame option) \<Rightarrow> string \<Rightarrow> (string \<times> pyval) list \<Rightarrow> unit prog" where
  "plot_new_stmt w var name kw =
     bind (load var name) (\<lambda>fr.
     bind (lib_call (Plot fr None kw) (\<lambda>h. plot w h fr None kw)) (\<lambda>a.
     assign ax_update a))"

definition plot_on_ax_stmt ::
  "world \<Rightarrow> (state \<Rightarrow> frame option) \<Rightarrow> string \<Rightarrow> (string \<times> pyval) list \<Rightarrow> unit prog" where
  "plot_on_ax_stmt w var name kw =
     bind (load var name) (\<lambda>fr.
     bind (load ax ''ax'') (\<lambda>a.
     bind (lib_call (Plot fr (Some a) kw) (\<lambda>h. plot w h fr (Some a) kw)) (\<lambda>_.
     ret ())))"

definition style :: "string \<Rightarrow> int \<Rightarrow> (string \<times> pyval) list" where
  "style edgecolor tenths =
     [(''color'', PStr ''none''), (''edgecolor'', PStr edgecolor),
      (''linewidths'', PFloat tenths (-1)), (''figsize'', PTuple [PInt 14, PInt 14])]"

definition cell_plot_pair :: "world \<Rightarrow> int \<Rightarrow> string \<Rightarrow> unit prog" where
  "cell_plot_pair w i edgecolor =
     in_order
       [read_file_stmt w input ''input'' i shp_update,
        read_file_stmt w fps ''fps'' i footprint_update,
        plot_new_stmt w shp ''shp'' (style edgecolor 15),
        plot_on_ax_stmt w footprint ''footprint'' (style ''black'' 5)]"

definition cell_plot_first :: "world \<Rightarrow> unit prog" where
  "cell_plot_first w = cell_plot_pair w 0 ''green''"

definition cell_plot_second :: "world \<Rightarrow> unit prog" where
  "cell_plot_second w = cell_plot_pair w 1 ''blue''"

definition cell_plot_third :: "world \<Rightarrow> unit prog" where
  "cell_plot_third w = cell_plot_pair w 2 ''green''"

definition cell_plot_adjacent :: "world \<Rightarrow> unit prog" where
  "cell_plot_adjacent w =
     in_order
       [read_file_stmt w input ''input'' 1 shp1_update,
        read_file_stmt w input ''input'' 2 shp2_update,
        plot_new_stmt w shp1 ''shp1'' (style ''blue'' 15 @ [(''alpha'', PFloat 3 (-1))]),
        plot_on_ax_stmt w shp2 ''shp2'' (style ''green'' 5 @ [(''alpha'', PFloat 3 (-1))])]"

text \<open>The configuration, as the display in the notebook lists it.\<close>

definition statistic_items :: "(string \<times> pyval) list" where
  "statistic_items =
     [(''name'', PStr ''iwp_coverage''),
      (''weight_by'', PStr ''area''),
      (''property'', PStr ''area_per_pixel_area''),
      (''aggregation_method'', PStr ''sum''),
      (''resampling_method'', PStr ''average''),
      (''val_range'', PList [PInt 0, PInt 1]),
      (''palette'', PList [PStr ''#66339952'', PStr ''#ffcc00'']),
      (''nodata_val'', PInt 0),
      (''nodata_color'', PStr ''#ffffff00'')]"

definition config_items :: "string \<Rightarrow> (string \<times> pyval) list" where
  "config_items d =
     [(''deduplicate_clip_to_footprint'', PBool True),
      (''dir_input'', PStr (d @ ''iwp/'')),
      (''ext_input'', PStr ''.shp''),
      (''ext_footprints'', PStr ''.shp''),
      (''dir_footprints'', PStr (d @ ''footprints/'')),
      (''dir_staged'', PStr ''staged/''),
      (''dir_geotiff'', PStr ''geotiff/''),
      (''dir_web_tiles'', PStr ''web_tiles/''),
      (''filename_staging_summary'', PStr ''staging_summary.csv''),
      (''filename_rasterization_events'', PStr ''raster_events.csv''),
      (''filename_rasters_summary'', PStr ''raster_summary.csv''),
      (''filename_config'', PStr ''config''),
      (''simplify_tolerance'', PFloat 1 (-1)),
      (''tms_id'', PStr ''WGS1984Quad''),
      (''z_range'', PList [PInt 0, PInt 15]),
      (''geometricError'', PInt 57),
      (''z_coord'', PInt 0),
      (''statistics'', PList [PDict (dict_display statistic_items)]),
      (''deduplicate_at'', PList [PStr ''raster'']),
      (''deduplicate_keep_rules'', PList [PList [PStr ''Date'', PStr ''larger'']]),
      (''deduplicate_method'', PStr ''footprints'')]"

definition cell_config :: "unit prog" where
  "cell_config =
     bind (load data_dir ''data_dir'') (\<lambda>d.
     bind (new_dict (dict_display (config_items d))) (\<lambda>a.
     assign config_update a))"

text \<open>
  \<^verbatim>\<open>stager = TileStager(config)\<close>, \<^verbatim>\<open>stager.stage_all()\<close> and
  \<^verbatim>\<open>RasterTiler(config).rasterize_all()\<close>.
\<close>

definition cell_stager :: "world \<Rightarrow> unit prog" where
  "cell_stager w =
     bind (load config ''config'') (\<lambda>a.
     bind (lib_call_ref NewTileStager (TileStager w) a) (\<lambda>st.
     assign stager_update st))"

definition cell_stage_all :: "world \<Rightarrow> unit prog" where
  "cell_stage_all w =
     bind (load stager ''stager'') (\<lambda>st.
     lib_call_heap (StageAll st) (\<lambda>h. stage_all w h st))"

definition cell_rasterize :: "world \<Rightarrow> unit prog" where
  "cell_rasterize w =
     bind (load config ''config'') (\<lambda>a.
     bind (lib_call_ref NewRasterTiler (RasterTiler w) a) (\<lambda>t.
     lib_call_heap (RasterizeAll t) (\<lambda>h. rasterize_all w h t)))"

definition notebook :: "world \<Rightarrow> unit prog list" where
  "notebook w =
     [cell_imports w, cell_input w, cell_fps w,
      cell_plot_first w, cell_plot_second w, cell_plot_third w, cell_plot_adjacent w,
      cell_config, cell_stager w, cell_stage_all w, cell_rasterize w]"

definition run :: "world \<Rightarrow> state \<times> (exn + unit)" where
  "run w = in_order (notebook w) fresh_kernel"

text \<open>The run of the first \<open>n\<close> cells.\<close>

definition first_cells :: "nat \<Rightarrow> world \<Rightarrow> state \<times> (exn + unit)" where
  "first_cells n w = in_order (take n (notebook w)) fresh_kernel"

subsection \<open>Notions used in the properties\<close>

text \<open>A log without a raised exception, and the exceptions of the interpreter itself.\<close>

definition quiet :: "event list \<Rightarrow> bool" where
  "quiet tr = list_all (\<lambda>ev. snd ev = Returned) tr"

fun own :: "exn \<Rightarrow> bool" where
  "own IndexError = True"
| "own (NameError _) = True"
| "own (LibraryError _) = False"

text \<open>
  A piece of code passes exceptions on: started with a quiet log, it either returns with
  a quiet log, or raises what the last library call raised, or raises an exception of the
  interpreter with a quiet log.
\<close>

definition passes_on :: "'a prog \<Rightarrow> bool" where
  "passes_on m \<longleftrightarrow>
     (\<forall>s. quiet (trace s) \<longrightarrow>
        (case m s of
           (s', Inr _) \<Rightarrow> quiet (trace s')
         | (s', Inl e) \<Rightarrow>
             (\<exists>tr c. trace s' = tr @ [(c, Raised e)] \<and> quiet tr) \<or> (quiet (trace s') \<and> own e)))"

text \<open>A property of states that a piece of code keeps.\<close>

definition preserves :: "(state \<Rightarrow> bool) \<Rightarrow> 'a prog \<Rightarrow> bool" where
  "preserves I m \<longleftrightarrow> (\<forall>s. I s \<longrightarrow> I (fst (m s)))"

text \<open>The calls of the two processing stages.\<close>

fun is_stage_all :: "call \<Rightarrow> bool" where
  "is_stage_all (StageAll _) = True"
| "is_stage_all _ = False"

fun is_rasterize_all :: "call \<Rightarrow> bool" where
  "is_rasterize_all (RasterizeAll _) = True"
| "is_rasterize_all _ = False"

text \<open>The calls made before the configuration exists.\<close>

fun early :: "call \<Rightarrow> bool" where
  "early (Import _) = True"
| "early (Glob _ _) = True"
| "early (ReadFile _) = True"
| "early (Plot _ _ _) = True"
| "early _ = False"

text \<open>
  The state before the configuration cell: no configuration, no stager, an empty heap,
  only early calls in the log, and \<open>data_dir\<close>, if bound, bound to the string of the
  notebook.
\<close>

definition the_data_dir :: string where
  "the_data_dir = ''/home/jcohen/testing/testing_datasets/iwp_3_files/''"

definition before_config :: "state \<Rightarrow> bool" where
  "before_config s \<longleftrightarrow>
     config s = None \<and> stager s = None \<and> heap s = [] \<and>
     list_all (\<lambda>ev. early (fst ev)) (trace s) \<and>
     (data_dir s = None \<or> data_dir s = Some the_data_dir)"

text \<open>
  The stager leaves the heap as it found it (its constructor and \<open>stage_all\<close>): an
  assumption on the library, made only where a theorem names it.
\<close>

definition stager_hands_off :: "world \<Rightarrow> bool" where
  "stager_hands_off w \<longleftrightarrow>
     (\<forall>h a hp. fst (TileStager w h a hp) = hp) \<and> (\<forall>h st hp. fst (stage_all w h st hp) = hp)"

text \<open>The library's \<open>glob\<close> is the one of a POSIX file system with the entries \<open>fs\<close>.\<close>

definition globs_from :: "path list \<Rightarrow> world \<Rightarrow> bool" where
  "globs_from fs w \<longleftrightarrow> path_glob w = (\<lambda>h b p. Inr (glob_entries fs b p))"

subsection \<open>Example worlds\<close>

text \<open>
  A file system with three detection files and three footprint files (and a file that is
  no shapefile), and libraries that always return: a data frame and a plot are numbered
  by the length of the log at the call.
\<close>

definition example_files :: "path list" where
  "example_files =
     map Path
       [''/home/jcohen/testing/testing_datasets/iwp_3_files/iwp/a/a.shp'',
        ''/home/jcohen/testing/testing_datasets/iwp_3_files/iwp/a/a.dbf'',
        ''/home/jcohen/testing/testing_datasets/iwp_3_files/iwp/b.shp'',
        ''/home/jcohen/testing/testing_datasets/iwp_3_files/iwp/c/d/c.shp'',
        ''/home/jcohen/testing/testing_datasets/iwp_3_files/footprints/a/a.shp'',
        ''/home/jcohen/testing/testing_datasets/iwp_3_files/footprints/b.shp'',
        ''/home/jcohen/testing/testing_datasets/iwp_3_files/footprints/c.shp'']"

definition example_world :: "path list \<Rightarrow> world" where
  "example_world fs =
     \<lparr>import_module = (\<lambda>h m. Inr ()),
      path_glob = (\<lambda>h b p. Inr (glob_entries fs b p)),
      read_file = (\<lambda>h p. Inr (Frame (length h))),
      plot = (\<lambda>h fr a kw. Inr (Axes (length h))),
      TileStager = (\<lambda>h a hp. (hp, Inr (Stager 0))),
      stage_all = (\<lambda>h st hp. (hp, Inr ())),
      RasterTiler = (\<lambda>h a hp. (hp, Inr (Tiler 0))),
      rasterize_all = (\<lambda>h t hp. (hp, Inr ()))\<rparr>"

text \<open>The same, with a staging step that raises.\<close>

definition failing_world :: world where
  "failing_world =
     (example_world example_files)
       \<lparr>stage_all := (\<lambda>h st hp. (hp, Inl (LibraryError ''staging failed'')))\<rparr>"

subsection \<open>Further notions\<close>

text \<open>The notebook in two parts: the cells before the configuration, and the rest.\<close>

definition head_cells :: "world \<Rightarrow> unit prog list" where
  "head_cells w =
     [cell_imports w, cell_input w, cell_fps w,
      cell_plot_first w, cell_plot_second w, cell_plot_third w, cell_plot_adjacent w]"

definition tail_cells :: "world \<Rightarrow> unit prog list" where
  "tail_cells w = [cell_config, cell_stager w, cell_stage_all w, cell_rasterize w]"

text \<open>The configuration the notebook builds, and the two directories it searches.\<close>

definition the_config :: dict where
  "the_config = dict_display (config_items the_data_dir)"

definition iwp_dir :: path where
  "iwp_dir =
     PosixPath ''/''
       [''home'', ''jcohen'', ''testing'', ''testing_datasets'', ''iwp_3_files'', ''iwp'']"

definition footprints_dir :: path where
  "footprints_dir =
     PosixPath ''/''
       [''home'', ''jcohen'', ''testing'', ''testing_datasets'', ''iwp_3_files'', ''footprints'']"

text \<open>A property of states that does not look at the field a given update writes.\<close>

definition ignores :: "(state \<Rightarrow> bool) \<Rightarrow> (('b \<Rightarrow> 'b) \<Rightarrow> state \<Rightarrow> state) \<Rightarrow> bool" where
  "ignores I upd \<longleftrightarrow> (\<forall>f s. I (upd f s) = I s)"

text \<open>
  What the discovery cells have bound, over the file system \<open>fs\<close>: every variable is
  either unbound or holds the one value the notebook gives it.
\<close>

definition discovered :: "path list \<Rightarrow> state \<Rightarrow> bool" where
  "discovered fs s \<longleftrightarrow>
     (data_dir s = None \<or> data_dir s = Some the_data_dir) \<and>
     (filename s = None \<or> filename s = Some ''*.shp'') \<and>
     (input s = None \<or> input s = Some (map as_posix (glob_entries fs iwp_dir ''**/*.shp''))) \<and>
     (fps s = None \<or> fps s = Some (map as_posix (glob_entries fs footprints_dir ''**/*.shp'')))"

text \<open>
  The calls the cells from the configuration on may log, with the outcome \<open>r\<close> of the
  run: each stage is reached only when everything before it returned.
\<close>

definition tail_log :: "world \<Rightarrow> event list \<Rightarrow> exn + unit \<Rightarrow> bool" where
  "tail_log w evs r \<longleftrightarrow>
     (evs = [] \<and> (\<exists>e. r = Inl e)) \<or>
     (\<exists>e. evs = [(NewTileStager 0 (Some the_config), Raised e)] \<and> r = Inl e) \<or>
     (\<exists>st e. evs = [(NewTileStager 0 (Some the_config), Returned), (StageAll st, Raised e)]
        \<and> r = Inl e) \<or>
     (\<exists>st d e. evs = [(NewTileStager 0 (Some the_config), Returned), (StageAll st, Returned),
                      (NewRasterTiler 0 d, Raised e)]
        \<and> (stager_hands_off w \<longrightarrow> d = Some the_config) \<and> r = Inl e) \<or>
     (\<exists>st d t o4. evs = [(NewTileStager 0 (Some the_config), Returned), (StageAll st, Returned),
                         (NewRasterTiler 0 d, Returned), (RasterizeAll t, o4)]
        \<and> (stager_hands_off w \<longrightarrow> d = Some the_config) \<and> (o4 = Returned \<longleftrightarrow> r = Inr ()))"

text \<open>No call of \<open>rasterize_all\<close> stands in a log before the first call of \<open>stage_all\<close>.\<close>

fun staged_first :: "call list \<Rightarrow> bool" where
  "staged_first [] = True"
| "staged_first (c # cs) = (is_stage_all c \<or> (\<not> is_rasterize_all c \<and> staged_first cs))"

text \<open>
  From one state of the run to a later one, every variable that was bound stays bound to
  the same value; and the same for the variables other than the three that the plotting
  cells assign again and again (\<open>shp\<close>, \<open>footprint\<close>, \<open>ax\<close>).
\<close>

definition keeps_bindings :: "state \<Rightarrow> state \<Rightarrow> bool" where
  "keeps_bindings s s' \<longleftrightarrow>
     (data_dir s = None \<or> data_dir s' = data_dir s) \<and>
     (base_dir s = None \<or> base_dir s' = base_dir s) \<and>
     (filename s = None \<or> filename s' = filename s) \<and>
     (input s = None \<or> input s' = input s) \<and>
     (base_dir_fp s = None \<or> base_dir_fp s' = base_dir_fp s) \<and>
     (fps s = None \<or> fps s' = fps s) \<and>
     (shp s = None \<or> shp s' = shp s) \<and>
     (footprint s = None \<or> footprint s' = footprint s) \<and>
     (ax s = None \<or> ax s' = ax s) \<and>
     (shp1 s = None \<or> shp1 s' = shp1 s) \<and>
     (shp2 s = None \<or> shp2 s' = shp2 s) \<and>
     (config s = None \<or> config s' = config s) \<and>
     (stager s = None \<or> stager s' = stager s)"

definition keeps_settled :: "state \<Rightarrow> state \<Rightarrow> bool" where
  "keeps_settled s s' \<longleftrightarrow>
     (data_dir s = None \<or> data_dir s' = data_dir s) \<and>
     (base_dir s = None \<or> base_dir s' = base_dir s) \<and>
     (filename s = None \<or> filename s' = filename s) \<and>
     (input s = None \<or> input s' = input s) \<and>
     (base_dir_fp s = None \<or> base_dir_fp s' = base_dir_fp s) \<and>
     (fps s = None \<or> fps s' = fps s) \<and>
     (shp1 s = None \<or> shp1 s' = shp1 s) \<and>
     (shp2 s = None \<or> shp2 s' = shp2 s) \<and>
     (config s = None \<or> config s' = config s) \<and>
     (stager s = None \<or> stager s' = stager s)"

text \<open>
  A value that is a string, a number or a list of at most two items (Python's \<open>True\<close>
  is a number: \<open>bool\<close> is a subclass of \<open>int\<close>); a value that holds a dictionary
  somewhere inside; and a dictionary all of whose values are of the first kind and none
  of the second.
\<close>

fun plain_value :: "pyval \<Rightarrow> bool" where
  "plain_value (PBool _) = True"
| "plain_value (PInt _) = True"
| "plain_value (PFloat _ _) = True"
| "plain_value (PStr _) = True"
| "plain_value (PList xs) = (length xs \<le> 2)"
| "plain_value (PTuple _) = False"
| "plain_value (PDict _) = False"

fun holds_mapping :: "pyval \<Rightarrow> bool" where
  "holds_mapping (PDict _) = True"
| "holds_mapping (PList xs) = list_ex holds_mapping xs"
| "holds_mapping (PTuple xs) = list_ex holds_mapping xs"
| "holds_mapping _ = False"

definition flat :: "dict \<Rightarrow> bool" where
  "flat d = list_all (\<lambda>kv. plain_value (snd kv) \<and> \<not> holds_mapping (snd kv)) d"

text \<open>The groups of variables that one cell binds.\<close>

definition discovery_vars ::
  "state \<Rightarrow> string option \<times> path option \<times> string option \<times> string list option" where
  "discovery_vars s = (data_dir s, base_dir s, filename s, input s)"

definition footprint_vars :: "state \<Rightarrow> path option \<times> string list option" where
  "footprint_vars s = (base_dir_fp s, fps s)"

definition adjacent_vars :: "state \<Rightarrow> frame option \<times> frame option" where
  "adjacent_vars s = (shp1 s, shp2 s)"

text \<open>
  Libraries whose imports, file reads and plots never raise: an assumption made only where
  a theorem names it.
\<close>

definition obliging :: "world \<Rightarrow> bool" where
  "obliging w \<longleftrightarrow>
     (\<forall>h m. \<not> isl (import_module w h m)) \<and>
     (\<forall>h p. \<not> isl (read_file w h p)) \<and>
     (\<forall>h fr a kw. \<not> isl (plot w h fr a kw))"

text \<open>
  What the discovery cells find in the example file system, and a file system with two
  detection files and no footprint file.
\<close>

definition example_inputs :: "string list" where
  "example_inputs =
     [''/home/jcohen/testing/testing_datasets/iwp_3_files/iwp/a/a.shp'',
      ''/home/jcohen/testing/testing_datasets/iwp_3_files/iwp/b.shp'',
      ''/home/jcohen/testing/testing_datasets/iwp_3_files/iwp/c/d/c.shp'']"

definition example_footprints :: "string list" where
  "example_footprints =
     [''/home/jcohen/testing/testing_datasets/iwp_3_files/footprints/a/a.shp'',
      ''/home/jcohen/testing/testing_datasets/iwp_3_files/footprints/b.shp'',
      ''/home/jcohen/testing/testing_datasets/iwp_3_files/footprints/c.shp'']"

definition sparse_files :: "path list" where
  "sparse_files =
     map Path
       [''/home/jcohen/testing/testing_datasets/iwp_3_files/iwp/a/a.shp'',
        ''/home/jcohen/testing/testing_datasets/iwp_3_files/iwp/b.shp'']"

section \<open>Properties\<close>

subsection \<open>Sequencing and invariants\<close>

declare fnmatchcase.simps [simp del] match_parts.simps [simp del]

lemma in_order_append:
  "in_order (xs @ ys) s =
     (case in_order xs s of (s', Inl e) \<Rightarrow> (s', Inl e) | (s', Inr _) \<Rightarrow> in_order ys s')"
  by (induction xs arbitrary: s) (auto split: prod.splits sum.splits)

lemma in_order_bind: "in_order (c # cs) = bind c (\<lambda>_. in_order cs)"
  by (rule ext) (simp add: bind_def split: prod.splits sum.splits)

lemma preserves_ret: "preserves I (ret x)"
  by (simp add: preserves_def ret_def)

lemma preserves_lift: "preserves I (lift r)"
  by (simp add: preserves_def lift_def)

lemma preserves_load: "preserves I (load var name)"
  by (simp add: preserves_def load_def split: option.splits)

lemma preserves_assign: "(\<And>f s. I (upd f s) = I s) \<Longrightarrow> preserves I (assign upd x)"
  by (simp add: preserves_def assign_def)

lemma preserves_bind:
  assumes "preserves I m" and "\<And>x. preserves I (f x)"
  shows "preserves I (bind m f)"
  unfolding preserves_def
proof (intro allI impI)
  fix s :: state assume "I s"
  obtain s' r where ms: "m s = (s', r)" by (cases "m s")
  with assms(1) \<open>I s\<close> have "I s'" by (auto simp: preserves_def dest!: spec[of _ s])
  then show "I (fst (bind m f s))"
    using ms assms(2) by (cases r) (auto simp: bind_def preserves_def)
qed

lemma preserves_in_order:
  "(\<And>c. c \<in> set cs \<Longrightarrow> preserves I c) \<Longrightarrow> preserves I (in_order cs)"
proof (induction cs)
  case Nil
  show ?case by (simp add: preserves_def)
next
  case (Cons c cs)
  then show ?case by (simp add: in_order_bind preserves_bind)
qed

lemmas preserves_intros = preserves_ret preserves_lift preserves_load preserves_bind
  preserves_in_order

lemma preservesD: "preserves I m \<Longrightarrow> I s \<Longrightarrow> I (fst (m s))"
  by (simp add: preserves_def)

subsection \<open>Exceptions\<close>

lemma quiet_simps [simp]:
  "quiet []" "quiet (tr @ [ev]) \<longleftrightarrow> quiet tr \<and> snd ev = Returned"
  by (auto simp: quiet_def)

lemma passes_on_ret: "passes_on (ret x)"
  by (simp add: passes_on_def ret_def)

lemma passes_on_load: "passes_on (load var name)"
  by (simp add: passes_on_def load_def split: option.splits)

lemma passes_on_index: "passes_on (lift (py_index xs i))"
  by (simp add: passes_on_def lift_def py_index_def)

lemma passes_on_assign: "(\<And>f s. trace (upd f s) = trace s) \<Longrightarrow> passes_on (assign upd x)"
  by (simp add: passes_on_def assign_def)

lemma passes_on_new_dict: "passes_on (new_dict d)"
  by (simp add: passes_on_def new_dict_def)

lemma passes_on_lib_call: "passes_on (lib_call c f)"
  by (auto simp: passes_on_def lib_call_def Let_def outcome_of_def split: sum.splits)

lemma passes_on_lib_call_heap: "passes_on (lib_call_heap c f)"
  by (auto simp: passes_on_def lib_call_heap_def Let_def outcome_of_def split: sum.splits prod.splits)

lemma passes_on_lib_call_ref: "passes_on (lib_call_ref mk f a)"
  by (auto simp: passes_on_def lib_call_ref_def lib_call_heap_def Let_def outcome_of_def split: sum.splits prod.splits)

lemma passes_onD:
  "passes_on m \<Longrightarrow> quiet (trace s) \<Longrightarrow> m s = (s', r) \<Longrightarrow>
     (case r of Inr _ \<Rightarrow> quiet (trace s')
      | Inl e \<Rightarrow> (\<exists>tr c. trace s' = tr @ [(c, Raised e)] \<and> quiet tr) \<or> (quiet (trace s') \<and> own e))"
  unfolding passes_on_def by (drule spec[of _ s]) (simp split: sum.splits)

lemma passes_on_bind:
  assumes "passes_on m" and "\<And>x. passes_on (f x)"
  shows "passes_on (bind m f)"
  unfolding passes_on_def
proof (intro allI impI)
  fix s :: state assume q: "quiet (trace s)"
  obtain s' r where ms: "m s = (s', r)" by (cases "m s")
  note m = passes_onD[OF assms(1) q ms]
  show "case bind m f s of
           (s', Inr _) \<Rightarrow> quiet (trace s')
         | (s', Inl e) \<Rightarrow>
             (\<exists>tr c. trace s' = tr @ [(c, Raised e)] \<and> quiet tr) \<or> (quiet (trace s') \<and> own e)"
  proof (cases r)
    case (Inl e)
    with m ms show ?thesis by (simp add: bind_def)
  next
    case (Inr x)
    with m have q': "quiet (trace s')" by simp
    obtain s'' r' where fs: "f x s' = (s'', r')" by (cases "f x s'")
    from passes_onD[OF assms(2) q' fs] ms Inr fs show ?thesis
      by (simp add: bind_def split: sum.splits)
  qed
qed

lemma passes_on_in_order:
  "(\<And>c. c \<in> set cs \<Longrightarrow> passes_on c) \<Longrightarrow> passes_on (in_order cs)"
proof (induction cs)
  case Nil
  show ?case by (simp add: passes_on_def)
next
  case (Cons c cs)
  have "in_order (c # cs) = bind c (\<lambda>_. in_order cs)"
    by (rule ext) (simp add: bind_def split: prod.splits sum.splits)
  with Cons show ?case by (simp add: passes_on_bind)
qed

lemmas passes_on_intros = passes_on_ret passes_on_load passes_on_index passes_on_new_dict
  passes_on_lib_call passes_on_lib_call_heap passes_on_lib_call_ref passes_on_bind passes_on_in_order

lemma passes_on_cell_imports: "passes_on (cell_imports w)"
  unfolding cell_imports_def import_stmt_def
  by (rule passes_on_in_order) (auto intro: passes_on_lib_call)

lemma passes_on_glob_stmt:
  "(\<And>f s. trace (upd f s) = trace s) \<Longrightarrow> passes_on (glob_stmt w dir nm upd)"
  unfolding glob_stmt_def by (intro passes_on_intros passes_on_assign) 

lemma passes_on_cell_input: "passes_on (cell_input w)"
  unfolding cell_input_def display_def
  by (rule passes_on_in_order) (auto intro!: passes_on_intros passes_on_assign passes_on_glob_stmt)

lemma passes_on_cell_fps: "passes_on (cell_fps w)"
  unfolding cell_fps_def display_def
  by (rule passes_on_in_order) (auto intro!: passes_on_intros passes_on_assign passes_on_glob_stmt)

lemma passes_on_read_file_stmt:
  "(\<And>f s. trace (upd f s) = trace s) \<Longrightarrow> passes_on (read_file_stmt w files nm i upd)"
  unfolding read_file_stmt_def by (intro passes_on_intros passes_on_assign)

lemma passes_on_plot_new_stmt: "passes_on (plot_new_stmt w var nm kw)"
  unfolding plot_new_stmt_def by (intro passes_on_intros passes_on_assign) simp

lemma passes_on_plot_on_ax_stmt: "passes_on (plot_on_ax_stmt w var nm kw)"
  unfolding plot_on_ax_stmt_def by (intro passes_on_intros)

lemma passes_on_cell_plot_pair: "passes_on (cell_plot_pair w i c)"
  unfolding cell_plot_pair_def
  by (rule passes_on_in_order)
     (auto intro!: passes_on_read_file_stmt passes_on_plot_new_stmt passes_on_plot_on_ax_stmt)

lemma passes_on_cell_plot_adjacent: "passes_on (cell_plot_adjacent w)"
  unfolding cell_plot_adjacent_def
  by (rule passes_on_in_order)
     (auto intro!: passes_on_read_file_stmt passes_on_plot_new_stmt passes_on_plot_on_ax_stmt)

lemma passes_on_cell_config: "passes_on cell_config"
  unfolding cell_config_def by (intro passes_on_intros passes_on_assign) simp

lemma passes_on_cell_stager: "passes_on (cell_stager w)"
  unfolding cell_stager_def by (intro passes_on_intros passes_on_assign) simp

lemma passes_on_cell_stage_all: "passes_on (cell_stage_all w)"
  unfolding cell_stage_all_def by (intro passes_on_intros)

lemma passes_on_cell_rasterize: "passes_on (cell_rasterize w)"
  unfolding cell_rasterize_def by (intro passes_on_intros)

lemma passes_on_notebook: "c \<in> set (notebook w) \<Longrightarrow> passes_on c"
  by (auto simp: notebook_def cell_plot_first_def cell_plot_second_def cell_plot_third_def
      passes_on_cell_imports passes_on_cell_input passes_on_cell_fps passes_on_cell_plot_pair
      passes_on_cell_plot_adjacent passes_on_cell_config passes_on_cell_stager
      passes_on_cell_stage_all passes_on_cell_rasterize)

lemma quiet_nth: "quiet tr \<Longrightarrow> i < length tr \<Longrightarrow> snd (tr ! i) = Returned"
  by (simp add: quiet_def list_all_length)

lemma run_outcome:
  "(case snd (run w) of Inr _ \<Rightarrow> quiet (trace (fst (run w)))
    | Inl e \<Rightarrow> (\<exists>tr c. trace (fst (run w)) = tr @ [(c, Raised e)] \<and> quiet tr)
               \<or> (quiet (trace (fst (run w))) \<and> own e))"
proof -
  have "passes_on (in_order (notebook w))"
    by (rule passes_on_in_order) (rule passes_on_notebook)
  moreover have "quiet (trace fresh_kernel)" by (simp add: fresh_kernel_def)
  ultimately show ?thesis
    unfolding run_def by (rule passes_onD) simp
qed

text \<open>
  Claim C6. The notebook handles no exception. Whenever a library call of a run raised,
  that call was the last thing the run did and the run ended with that very exception;
  and a run that ended with an exception ended either with the exception its last library
  call raised, or with an exception of the interpreter itself (an index out of range, an
  unbound name) after library calls that all returned.
\<close>

theorem exceptions_leave_the_driver_unchanged:
  "(i < length (trace (fst (run w))) \<and> snd (trace (fst (run w)) ! i) = Raised e
      \<longrightarrow> Suc i = length (trace (fst (run w))) \<and> snd (run w) = Inl e) \<and>
   (snd (run w) = Inl e
      \<longrightarrow> (trace (fst (run w)) \<noteq> [] \<and> snd (last (trace (fst (run w)))) = Raised e)
          \<or> (quiet (trace (fst (run w))) \<and> own e))"
proof (cases "snd (run w)")
  case (Inr u)
  with run_outcome[of w] have "quiet (trace (fst (run w)))" by simp
  with Inr show ?thesis by (auto dest: quiet_nth)
next
  case (Inl e')
  with run_outcome[of w] consider
    (lib) tr c where "trace (fst (run w)) = tr @ [(c, Raised e')]" "quiet tr"
    | (own) "quiet (trace (fst (run w)))" "own e'" by auto
  then show ?thesis
  proof cases
    case lib
    then show ?thesis using Inl
      by (auto simp: nth_append dest: quiet_nth split: if_splits)
  next
    case own
    then show ?thesis using Inl by (auto dest: quiet_nth)
  qed
qed

subsection \<open>Frames\<close>

lemma frame_assign: "ignores I upd \<Longrightarrow> preserves I (assign upd x)"
  by (simp add: preserves_def assign_def ignores_def)

lemma frame_lib_call: "ignores I trace_update \<Longrightarrow> preserves I (lib_call c f)"
  by (simp add: preserves_def lib_call_def ignores_def Let_def)

lemma frame_lib_call_heap:
  "ignores I trace_update \<Longrightarrow> ignores I heap_update \<Longrightarrow> preserves I (lib_call_heap c f)"
  by (simp add: preserves_def lib_call_heap_def ignores_def split: prod.splits)

lemma frame_lib_call_ref:
  "ignores I trace_update \<Longrightarrow> ignores I heap_update \<Longrightarrow> preserves I (lib_call_ref mk f a)"
  by (simp add: preserves_def lib_call_ref_def lib_call_heap_def ignores_def split: prod.splits)

lemma frame_new_dict: "ignores I heap_update \<Longrightarrow> preserves I (new_dict d)"
  by (simp add: preserves_def new_dict_def ignores_def)

lemmas frame_intros = preserves_ret preserves_lift preserves_load preserves_bind
  frame_assign frame_lib_call frame_lib_call_heap frame_lib_call_ref frame_new_dict

lemma frame_glob_stmt:
  "ignores I trace_update \<Longrightarrow> ignores I upd \<Longrightarrow> preserves I (glob_stmt w dir nm upd)"
  unfolding glob_stmt_def by (intro frame_intros)

lemma frame_read_file_stmt:
  "ignores I trace_update \<Longrightarrow> ignores I upd \<Longrightarrow> preserves I (read_file_stmt w files nm i upd)"
  unfolding read_file_stmt_def by (intro frame_intros)

lemma frame_plot_new_stmt:
  "ignores I trace_update \<Longrightarrow> ignores I ax_update \<Longrightarrow> preserves I (plot_new_stmt w var nm kw)"
  unfolding plot_new_stmt_def by (intro frame_intros)

lemma frame_plot_on_ax_stmt:
  "ignores I trace_update \<Longrightarrow> preserves I (plot_on_ax_stmt w var nm kw)"
  unfolding plot_on_ax_stmt_def by (intro frame_intros)

lemma frame_cell_imports: "ignores I trace_update \<Longrightarrow> preserves I (cell_imports w)"
  unfolding cell_imports_def import_stmt_def
  by (rule preserves_in_order) (auto intro: frame_lib_call)

lemma frame_cell_input:
  "ignores I trace_update \<Longrightarrow> ignores I data_dir_update \<Longrightarrow> ignores I base_dir_update \<Longrightarrow>
   ignores I filename_update \<Longrightarrow> ignores I input_update \<Longrightarrow> preserves I (cell_input w)"
  unfolding cell_input_def display_def
  by (rule preserves_in_order) (auto intro!: frame_intros frame_glob_stmt)

lemma frame_cell_fps:
  "ignores I trace_update \<Longrightarrow> ignores I base_dir_fp_update \<Longrightarrow> ignores I fps_update \<Longrightarrow>
   preserves I (cell_fps w)"
  unfolding cell_fps_def display_def
  by (rule preserves_in_order) (auto intro!: frame_intros frame_glob_stmt)

lemma frame_cell_plot_pair:
  "ignores I trace_update \<Longrightarrow> ignores I shp_update \<Longrightarrow> ignores I footprint_update \<Longrightarrow>
   ignores I ax_update \<Longrightarrow> preserves I (cell_plot_pair w i c)"
  unfolding cell_plot_pair_def
  by (rule preserves_in_order)
     (auto intro!: frame_read_file_stmt frame_plot_new_stmt frame_plot_on_ax_stmt)

lemma frame_cell_plot_adjacent:
  "ignores I trace_update \<Longrightarrow> ignores I shp1_update \<Longrightarrow> ignores I shp2_update \<Longrightarrow>
   ignores I ax_update \<Longrightarrow> preserves I (cell_plot_adjacent w)"
  unfolding cell_plot_adjacent_def
  by (rule preserves_in_order)
     (auto intro!: frame_read_file_stmt frame_plot_new_stmt frame_plot_on_ax_stmt)

lemma frame_cell_config:
  "ignores I heap_update \<Longrightarrow> ignores I config_update \<Longrightarrow> preserves I cell_config"
  unfolding cell_config_def by (intro frame_intros)

lemma frame_cell_stager:
  "ignores I trace_update \<Longrightarrow> ignores I heap_update \<Longrightarrow> ignores I stager_update \<Longrightarrow>
   preserves I (cell_stager w)"
  unfolding cell_stager_def by (intro frame_intros)

lemma frame_cell_stage_all:
  "ignores I trace_update \<Longrightarrow> ignores I heap_update \<Longrightarrow> preserves I (cell_stage_all w)"
  unfolding cell_stage_all_def by (intro frame_intros)

lemma frame_cell_rasterize:
  "ignores I trace_update \<Longrightarrow> ignores I heap_update \<Longrightarrow> preserves I (cell_rasterize w)"
  unfolding cell_rasterize_def by (intro frame_intros)

subsection \<open>The cells before the configuration, and the cells from it on\<close>

lemma bc_lib_call: "early c \<Longrightarrow> preserves before_config (lib_call c f)"
  by (simp add: preserves_def before_config_def lib_call_def Let_def)

lemma bc_assign_data_dir: "preserves before_config (assign data_dir_update the_data_dir)"
  by (simp add: preserves_def before_config_def assign_def)

lemma bc_glob_stmt:
  "(\<And>f s. before_config (upd f s) = before_config s) \<Longrightarrow>
   preserves before_config (glob_stmt w dir nm upd)"
  unfolding glob_stmt_def by (intro preserves_intros preserves_assign bc_lib_call) simp_all

lemma bc_read_file_stmt:
  "(\<And>f s. before_config (upd f s) = before_config s) \<Longrightarrow>
   preserves before_config (read_file_stmt w files nm i upd)"
  unfolding read_file_stmt_def by (intro preserves_intros preserves_assign bc_lib_call) simp_all

lemma bc_plot_new_stmt: "preserves before_config (plot_new_stmt w var nm kw)"
  unfolding plot_new_stmt_def
  by (intro preserves_intros preserves_assign bc_lib_call) (simp_all add: before_config_def)

lemma bc_plot_on_ax_stmt: "preserves before_config (plot_on_ax_stmt w var nm kw)"
  unfolding plot_on_ax_stmt_def
  by (intro preserves_intros preserves_assign bc_lib_call) simp_all

lemma bc_cell_imports: "preserves before_config (cell_imports w)"
  unfolding cell_imports_def import_stmt_def
  by (rule preserves_in_order) (auto intro: bc_lib_call)

lemma bc_cell_input: "preserves before_config (cell_input w)"
  unfolding cell_input_def display_def the_data_dir_def[symmetric]
  by (rule preserves_in_order)
     (auto intro!: preserves_intros preserves_assign bc_glob_stmt bc_assign_data_dir
           simp: before_config_def)

lemma bc_cell_fps: "preserves before_config (cell_fps w)"
  unfolding cell_fps_def display_def
  by (rule preserves_in_order)
     (auto intro!: preserves_intros preserves_assign bc_glob_stmt simp: before_config_def)

lemma bc_cell_plot_pair: "preserves before_config (cell_plot_pair w i c)"
  unfolding cell_plot_pair_def
  by (rule preserves_in_order)
     (auto intro!: bc_read_file_stmt bc_plot_new_stmt bc_plot_on_ax_stmt simp: before_config_def)

lemma bc_cell_plot_adjacent: "preserves before_config (cell_plot_adjacent w)"
  unfolding cell_plot_adjacent_def
  by (rule preserves_in_order)
     (auto intro!: bc_read_file_stmt bc_plot_new_stmt bc_plot_on_ax_stmt simp: before_config_def)

lemma notebook_split: "notebook w = head_cells w @ tail_cells w"
  by (simp add: notebook_def head_cells_def tail_cells_def)

lemma bc_head: "before_config (fst (in_order (head_cells w) fresh_kernel))"
proof -
  have "preserves before_config (in_order (head_cells w))"
    by (rule preserves_in_order)
       (auto simp: head_cells_def cell_plot_first_def cell_plot_second_def cell_plot_third_def
          bc_cell_imports bc_cell_input bc_cell_fps bc_cell_plot_pair bc_cell_plot_adjacent)
  moreover have "before_config fresh_kernel"
    by (simp add: before_config_def fresh_kernel_def)
  ultimately show ?thesis by (rule preservesD)
qed

lemma hands_off_TileStager: "stager_hands_off w \<Longrightarrow> fst (TileStager w h a hp) = hp"
  by (simp add: stager_hands_off_def)

lemma hands_off_stage_all: "stager_hands_off w \<Longrightarrow> fst (stage_all w h st hp) = hp"
  by (simp add: stager_hands_off_def)

lemma cell_config_eq:
  "data_dir s = Some d \<Longrightarrow>
   cell_config s =
     (s\<lparr>heap := heap s @ [dict_display (config_items d)], config := Some (length (heap s))\<rparr>,
      Inr ())"
  by (simp add: cell_config_def bind_def load_def new_dict_def assign_def)

lemma cell_stager_eq:
  "config s = Some a \<Longrightarrow> TileStager w (trace s) a (heap s) = (h, r) \<Longrightarrow>
   cell_stager w s =
     (case r of
        Inl e \<Rightarrow> (s\<lparr>heap := h,
                      trace := trace s @ [(NewTileStager a (heap_get (heap s) a), Raised e)]\<rparr>,
                   Inl e)
      | Inr st \<Rightarrow> (s\<lparr>heap := h,
                      trace := trace s @ [(NewTileStager a (heap_get (heap s) a), Returned)],
                      stager := Some st\<rparr>,
                    Inr ()))"
  by (simp add: cell_stager_def bind_def load_def lib_call_ref_def lib_call_heap_def assign_def
      outcome_of_def split: sum.splits)

lemma cell_stage_all_eq:
  "stager s = Some st \<Longrightarrow> stage_all w (trace s) st (heap s) = (h, r) \<Longrightarrow>
   cell_stage_all w s =
     (s\<lparr>heap := h, trace := trace s @ [(StageAll st, outcome_of r)]\<rparr>, r)"
  by (simp add: cell_stage_all_def bind_def load_def lib_call_heap_def)

lemma cell_rasterize_eq:
  "config s = Some a \<Longrightarrow> RasterTiler w (trace s) a (heap s) = (h, r) \<Longrightarrow>
   cell_rasterize w s =
     (case r of
        Inl e \<Rightarrow> (s\<lparr>heap := h,
                      trace := trace s @ [(NewRasterTiler a (heap_get (heap s) a), Raised e)]\<rparr>,
                   Inl e)
      | Inr t \<Rightarrow>
          (case rasterize_all w
                  (trace s @ [(NewRasterTiler a (heap_get (heap s) a), Returned)]) t h of
             (h', r') \<Rightarrow>
               (s\<lparr>heap := h',
                  trace := trace s @ [(NewRasterTiler a (heap_get (heap s) a), Returned),
                                      (RasterizeAll t, outcome_of r')]\<rparr>,
                r')))"
  by (simp add: cell_rasterize_def bind_def load_def lib_call_ref_def lib_call_heap_def
      outcome_of_def split: sum.splits prod.splits)

lemma tail_shape:
  assumes "before_config s"
  shows "\<exists>evs. trace (fst (in_order (tail_cells w) s)) = trace s @ evs \<and>
           tail_log w evs (snd (in_order (tail_cells w) s)) \<and>
           (evs \<noteq> [] \<longrightarrow> config (fst (in_order (tail_cells w) s)) = Some 0)"
proof (cases "data_dir s")
  case None
  then show ?thesis
    by (simp add: tail_log_def tail_cells_def cell_config_def bind_def load_def)
next
  case (Some d)
  with assms have d: "data_dir s = Some the_data_dir" and h: "heap s = []"
    by (auto simp: before_config_def)
  define s1 where "s1 = s\<lparr>heap := [the_config], config := Some 0\<rparr>"
  have c1: "cell_config s = (s1, Inr ())"
    using d h by (simp add: cell_config_eq s1_def the_config_def)
  obtain h1 r1 where ts: "TileStager w (trace s) 0 [the_config] = (h1, r1)"
    by (cases "TileStager w (trace s) 0 [the_config]")
  have h1: "stager_hands_off w \<Longrightarrow> h1 = [the_config]"
    using ts hands_off_TileStager[of w "trace s" 0 "[the_config]"] by simp
  let ?e1 = "\<lambda>o1. (NewTileStager 0 (Some the_config), o1)"
  have c2: "cell_stager w s1 =
     (case r1 of
        Inl e \<Rightarrow> (s1\<lparr>heap := h1, trace := trace s @ [?e1 (Raised e)]\<rparr>, Inl e)
      | Inr st \<Rightarrow> (s1\<lparr>heap := h1, trace := trace s @ [?e1 Returned], stager := Some st\<rparr>,
                    Inr ()))"
    using ts by (subst cell_stager_eq[where a=0 and h=h1 and r=r1])
                (simp_all add: s1_def heap_get_def split: sum.splits)
  show ?thesis
  proof (cases r1)
    case (Inl e)
    with c1 c2 show ?thesis by (simp add: tail_log_def tail_cells_def s1_def)
  next
    case (Inr st)
    define s2 where "s2 = s1\<lparr>heap := h1, trace := trace s @ [?e1 Returned], stager := Some st\<rparr>"
    from c2 Inr have c2': "cell_stager w s1 = (s2, Inr ())" by (simp add: s2_def)
    obtain h2 r2 where sa: "stage_all w (trace s2) st h1 = (h2, r2)"
      by (cases "stage_all w (trace s2) st h1")
    have h2: "stager_hands_off w \<Longrightarrow> h2 = [the_config]"
      using sa h1 hands_off_stage_all[of w "trace s2" st h1] by simp
    have c3: "cell_stage_all w s2 =
        (s2\<lparr>heap := h2, trace := trace s2 @ [(StageAll st, outcome_of r2)]\<rparr>, r2)"
      using sa by (subst cell_stage_all_eq[where st=st and h=h2 and r=r2])
                  (simp_all add: s2_def)
    show ?thesis
    proof (cases r2)
      case (Inl e)
      with c1 c2' c3 show ?thesis
        by (simp add: tail_log_def tail_cells_def s1_def s2_def outcome_of_def)
    next
      case (Inr u)
      define s3 where "s3 = s2\<lparr>heap := h2, trace := trace s2 @ [(StageAll st, Returned)]\<rparr>"
      from c3 Inr have c3': "cell_stage_all w s2 = (s3, Inr ())"
        by (simp add: s3_def outcome_of_def)
      obtain h3 r3 where rt: "RasterTiler w (trace s3) 0 h2 = (h3, r3)"
        by (cases "RasterTiler w (trace s3) 0 h2")
      have d3: "stager_hands_off w \<Longrightarrow> heap_get h2 0 = Some the_config"
        using h2 by (simp add: heap_get_def)
      note c4 = cell_rasterize_eq[where s=s3 and a=0 and w=w and h=h3 and r=r3]
      have pre: "config s3 = Some 0" "heap s3 = h2"
        by (simp_all add: s3_def s2_def s1_def)
      show ?thesis
      proof (cases r3)
        case (Inl e)
        with c1 c2' c3' c4 pre rt d3 show ?thesis
          by (simp add: tail_log_def tail_cells_def s1_def s2_def s3_def)
      next
        case (Inr t)
        obtain h4 r4 where ra: "rasterize_all w
                  (trace s3 @ [(NewRasterTiler 0 (heap_get h2 0), Returned)]) t h3 = (h4, r4)"
          by (cases "rasterize_all w
                  (trace s3 @ [(NewRasterTiler 0 (heap_get h2 0), Returned)]) t h3")
        with Inr c1 c2' c3' c4 pre rt d3 show ?thesis
          by (cases r4) (simp_all add: tail_log_def tail_cells_def s1_def s2_def s3_def outcome_of_def)
      qed
    qed
  qed
qed

lemma run_split:
  "run w =
     (case in_order (head_cells w) fresh_kernel of
        (s', Inl e) \<Rightarrow> (s', Inl e)
      | (s', Inr _) \<Rightarrow> in_order (tail_cells w) s')"
  by (simp add: run_def notebook_split in_order_append)

lemma run_shape:
  "\<exists>tr evs. trace (fst (run w)) = tr @ evs \<and> list_all (\<lambda>ev. early (fst ev)) tr \<and>
     tail_log w evs (snd (run w)) \<and> (evs \<noteq> [] \<longrightarrow> config (fst (run w)) = Some 0)"
proof -
  obtain s7 r7 where h: "in_order (head_cells w) fresh_kernel = (s7, r7)"
    by (cases "in_order (head_cells w) fresh_kernel")
  from bc_head[of w] h have bc: "before_config s7" by simp
  then have early: "list_all (\<lambda>ev. early (fst ev)) (trace s7)"
    by (simp add: before_config_def)
  show ?thesis
  proof (cases r7)
    case (Inl e)
    with h have "run w = (s7, Inl e)" by (simp add: run_split)
    with early show ?thesis
      by (intro exI[of _ "trace s7"] exI[of _ "[]"]) (simp add: tail_log_def)
  next
    case (Inr u)
    with h have "run w = in_order (tail_cells w) s7" by (simp add: run_split)
    with tail_shape[OF bc, of w] early show ?thesis by auto
  qed
qed

subsection \<open>The order of the two stages\<close>

lemma early_not_stage [simp]:
  "early c \<Longrightarrow> \<not> is_stage_all c" "early c \<Longrightarrow> \<not> is_rasterize_all c"
  by (cases c; simp)+

lemma staged_first_index:
  "staged_first cs \<Longrightarrow> i < length cs \<Longrightarrow> is_rasterize_all (cs ! i) \<Longrightarrow>
   \<exists>j<i. is_stage_all (cs ! j)"
proof (induction cs arbitrary: i)
  case Nil
  then show ?case by simp
next
  case (Cons c cs)
  show ?case
  proof (cases "is_stage_all c")
    case True
    with Cons.prems have "i \<noteq> 0" by (cases c; cases i; simp)
    with True show ?thesis by (intro exI[of _ 0]) simp
  next
    case False
    with Cons.prems obtain k where k: "i = Suc k" by (cases i) auto
    with Cons.prems False have "\<exists>j<k. is_stage_all (cs ! j)"
      by (intro Cons.IH) auto
    then obtain j where "j < k" "is_stage_all (cs ! j)" by blast
    with k show ?thesis by (intro exI[of _ "Suc j"]) simp
  qed
qed

lemma staged_first_early:
  "list_all (\<lambda>ev. early (fst ev)) tr \<Longrightarrow> staged_first (map fst tr @ cs) = staged_first cs"
  by (induction tr) auto

lemma run_staged_first: "staged_first (map fst (trace (fst (run w))))"
proof -
  from run_shape[of w] obtain tr evs where
    t: "trace (fst (run w)) = tr @ evs" "list_all (\<lambda>ev. early (fst ev)) tr"
       "tail_log w evs (snd (run w))"
    by blast
  from t(3) have "staged_first (map fst evs)" by (auto simp: tail_log_def)
  with t(1,2) show ?thesis by (simp add: staged_first_early)
qed

text \<open>
  Claim C2. In every run, whatever the libraries do, a call of \<open>rasterize_all\<close> in the
  log has a call of \<open>stage_all\<close> before it; and a run that ends without an exception
  has called \<open>stage_all\<close> and, later, \<open>rasterize_all\<close>.
\<close>

theorem staging_precedes_rasterization:
  "(i < length (trace (fst (run w))) \<and> is_rasterize_all (fst (trace (fst (run w)) ! i))
      \<longrightarrow> (\<exists>j<i. is_stage_all (fst (trace (fst (run w)) ! j)))) \<and>
   (snd (run w) = Inr ()
      \<longrightarrow> (\<exists>j i. j < i \<and> i < length (trace (fst (run w))) \<and>
                 is_stage_all (fst (trace (fst (run w)) ! j)) \<and>
                 is_rasterize_all (fst (trace (fst (run w)) ! i))))"
proof (intro conjI impI)
  assume a: "i < length (trace (fst (run w))) \<and> is_rasterize_all (fst (trace (fst (run w)) ! i))"
  with staged_first_index[OF run_staged_first, of i w]
  show "\<exists>j<i. is_stage_all (fst (trace (fst (run w)) ! j))" by auto
next
  assume ok: "snd (run w) = Inr ()"
  from run_shape[of w] obtain tr evs where
    t: "trace (fst (run w)) = tr @ evs" "tail_log w evs (snd (run w))"
    by blast
  from t(2) ok obtain st d tl where
    evs: "evs = [(NewTileStager 0 (Some the_config), Returned), (StageAll st, Returned),
                 (NewRasterTiler 0 d, Returned), (RasterizeAll tl, Returned)]"
    by (auto simp: tail_log_def)
  show "\<exists>j i. j < i \<and> i < length (trace (fst (run w))) \<and>
                 is_stage_all (fst (trace (fst (run w)) ! j)) \<and>
                 is_rasterize_all (fst (trace (fst (run w)) ! i))"
    by (intro exI[of _ "length tr + 1"] exI[of _ "length tr + 3"])
       (simp add: t(1) evs nth_append)
qed

subsection \<open>Variables are bound once\<close>

lemma write_once:
  assumes fr: "\<And>c t. c \<in> set pre \<union> set post \<Longrightarrow> preserves (\<lambda>s. g s = t) c"
    and nm: "n \<le> m"
  shows "g (fst (in_order (take n (pre @ c0 # post)) s0)) = g s0 \<or>
         g (fst (in_order (take n (pre @ c0 # post)) s0)) =
         g (fst (in_order (take m (pre @ c0 # post)) s0))"
proof (cases "n \<le> length pre")
  case True
  have "preserves (\<lambda>s. g s = g s0) (in_order (take n pre))"
    by (rule preserves_in_order) (blast dest: in_set_takeD intro: fr)
  then have "g (fst (in_order (take n pre) s0)) = g s0"
    by (rule preservesD) simp
  with True show ?thesis by simp
next
  case False
  let ?cells = "pre @ c0 # post"
  let ?rest = "take (m - n) (drop n ?cells)"
  obtain s r where sn: "in_order (take n ?cells) s0 = (s, r)"
    by (cases "in_order (take n ?cells) s0")
  from nm have "take m ?cells = take n ?cells @ ?rest"
    by (metis le_add_diff_inverse take_add)
  then have "in_order (take m ?cells) s0 = in_order (take n ?cells @ ?rest) s0"
    by (simp only:)
  also have "\<dots> = (case r of Inl e \<Rightarrow> (s, Inl e) | Inr _ \<Rightarrow> in_order ?rest s)"
    unfolding in_order_append sn by (simp split: sum.splits)
  finally have m: "in_order (take m ?cells) s0 =
      (case r of Inl e \<Rightarrow> (s, Inl e) | Inr _ \<Rightarrow> in_order ?rest s)" .
  from False have "set ?rest \<subseteq> set post"
    by (auto dest!: in_set_takeD in_set_dropD simp: drop_Cons' split: if_splits)
  then have "preserves (\<lambda>x. g x = g s) (in_order ?rest)"
    by (intro preserves_in_order fr) auto
  then have "g (fst (in_order ?rest s)) = g s"
    by (rule preservesD) simp
  with m sn show ?thesis by (cases r) simp_all
qed

lemma ignores_config:
  "ignores (\<lambda>s. config s = t) trace_update" "ignores (\<lambda>s. config s = t) heap_update"
  "ignores (\<lambda>s. config s = t) data_dir_update" "ignores (\<lambda>s. config s = t) base_dir_update"
  "ignores (\<lambda>s. config s = t) filename_update" "ignores (\<lambda>s. config s = t) input_update"
  "ignores (\<lambda>s. config s = t) base_dir_fp_update" "ignores (\<lambda>s. config s = t) fps_update"
  "ignores (\<lambda>s. config s = t) shp_update" "ignores (\<lambda>s. config s = t) footprint_update"
  "ignores (\<lambda>s. config s = t) ax_update" "ignores (\<lambda>s. config s = t) shp1_update"
  "ignores (\<lambda>s. config s = t) shp2_update" "ignores (\<lambda>s. config s = t) stager_update"
  by (simp_all add: ignores_def)

lemma notebook_around_config:
  "notebook w = head_cells w @ cell_config # [cell_stager w, cell_stage_all w, cell_rasterize w]"
  by (simp add: notebook_def head_cells_def)

lemma config_write_once:
  assumes "n \<le> m"
  shows "config (fst (first_cells n w)) = None \<or> config (fst (first_cells n w)) = config (fst (first_cells m w))"
proof -
  have fr: "preserves (\<lambda>s. config s = t) c"
    if "c \<in> set (head_cells w) \<union> set [cell_stager w, cell_stage_all w, cell_rasterize w]"
    for c t
    using that
    by (auto simp: head_cells_def cell_plot_first_def cell_plot_second_def cell_plot_third_def
        intro!: frame_cell_imports frame_cell_input frame_cell_fps frame_cell_plot_pair
          frame_cell_plot_adjacent frame_cell_stager frame_cell_stage_all frame_cell_rasterize
          ignores_config)
  have "config fresh_kernel = None" by (simp add: fresh_kernel_def)
  with write_once[where pre="head_cells w" and g=config and ?c0.0=cell_config
      and post="[cell_stager w, cell_stage_all w, cell_rasterize w]" and ?s0.0=fresh_kernel,
      OF fr assms]
  show ?thesis
    by (simp only: first_cells_def notebook_around_config)
qed

subsection \<open>The configuration reaches both stages\<close>

lemma first_cells_all: "first_cells 11 w = run w"
  by (simp add: first_cells_def run_def notebook_def)

lemma not_early_in:
  "list_all (\<lambda>ev. early (fst ev)) tr \<Longrightarrow> (c, oc) \<in> set tr \<Longrightarrow> early c"
  by (auto simp: list_all_iff)

lemma constructor_events:
  assumes "(c, oc) \<in> set (trace (fst (run w)))" and "\<not> early c"
  shows "config (fst (run w)) = Some 0 \<and>
     (\<forall>a d. c = NewTileStager a d \<longrightarrow> a = 0 \<and> d = Some the_config) \<and>
     (\<forall>a d. c = NewRasterTiler a d \<longrightarrow> a = 0 \<and> (stager_hands_off w \<longrightarrow> d = Some the_config))"
proof -
  from run_shape[of w] obtain tr evs where
    t: "trace (fst (run w)) = tr @ evs" "list_all (\<lambda>ev. early (fst ev)) tr"
       "tail_log w evs (snd (run w))" "evs \<noteq> [] \<longrightarrow> config (fst (run w)) = Some 0"
    by blast
  from assms t(1,2) have in_evs: "(c, oc) \<in> set evs"
    by (auto dest: not_early_in)
  then have "evs \<noteq> []" by auto
  with t(4) have "config (fst (run w)) = Some 0" by simp
  moreover from in_evs t(3) have
    "(\<forall>a d. c = NewTileStager a d \<longrightarrow> a = 0 \<and> d = Some the_config) \<and>
     (\<forall>a d. c = NewRasterTiler a d \<longrightarrow> a = 0 \<and> (stager_hands_off w \<longrightarrow> d = Some the_config))"
    by (auto simp: tail_log_def)
  ultimately show ?thesis by simp
qed

text \<open>
  Claim C1. The notebook builds one configuration object and hands that object to both
  stages. If a run called both constructors, the reference given to \<open>RasterTiler\<close> is
  the reference given to \<open>TileStager\<close>, it is what the variable \<open>config\<close> holds
  at the end, and at every point of the run \<open>config\<close> is unbound or holds this
  reference (the dictionary is built once). Both constructors are thus given the same
  object; the contents the rasterizer finds in it are, key by key, the contents the stager
  found, as long as the stager library did not write to the object it was given.
\<close>

theorem one_configuration_for_both_stages:
  assumes "(NewTileStager a d, o1) \<in> set (trace (fst (run w)))"
    and "(NewRasterTiler a' d', o2) \<in> set (trace (fst (run w)))"
  shows "a' = a \<and> config (fst (run w)) = Some a \<and>
         (\<forall>n. config (fst (first_cells n w)) = None \<or> config (fst (first_cells n w)) = Some a) \<and>
         (stager_hands_off w \<longrightarrow> d' = d)"
proof -
  from constructor_events[OF assms(1)] have 1: "config (fst (run w)) = Some 0" "a = 0"
    "d = Some the_config" by auto
  from constructor_events[OF assms(2)] have 2: "a' = 0" "stager_hands_off w \<longrightarrow> d' = Some the_config"
    by auto
  have "config (fst (first_cells n w)) = None \<or> config (fst (first_cells n w)) = Some a" for n
  proof (cases "n \<le> 11")
    case True
    from config_write_once[OF True, of w] 1 show ?thesis by (simp add: first_cells_all)
  next
    case False
    then have "first_cells n w = run w" by (simp add: first_cells_def run_def notebook_def)
    with 1 show ?thesis by simp
  qed
  with 1 2 show ?thesis by simp
qed

subsection \<open>Discovery\<close>

lemma Path_iwp: "Path (the_data_dir @ ''iwp'') = iwp_dir"
  by (simp add: Path_def the_data_dir_def iwp_dir_def)

lemma Path_footprints: "Path (the_data_dir @ ''footprints'') = footprints_dir"
  by (simp add: Path_def the_data_dir_def footprints_dir_def)

lemma cell_input_eq:
  "path_glob w (trace s) iwp_dir ''**/*.shp'' = r \<Longrightarrow>
   cell_input w s =
     (case r of
        Inl e \<Rightarrow>
          (s\<lparr>data_dir := Some the_data_dir, base_dir := Some iwp_dir, filename := Some ''*.shp'',
             trace := trace s @ [(Glob iwp_dir ''**/*.shp'', Raised e)]\<rparr>, Inl e)
      | Inr ps \<Rightarrow>
          (s\<lparr>data_dir := Some the_data_dir, base_dir := Some iwp_dir, filename := Some ''*.shp'',
             trace := trace s @ [(Glob iwp_dir ''**/*.shp'', Returned)],
             input := Some (map as_posix ps)\<rparr>, Inr ()))"
  by (simp add: cell_input_def bind_def load_def assign_def glob_stmt_def display_def ret_def
      lib_call_def outcome_of_def Path_iwp the_data_dir_def[symmetric] split: sum.splits)

lemma cell_fps_eq:
  "data_dir s = Some the_data_dir \<Longrightarrow> filename s = Some ''*.shp'' \<Longrightarrow>
   path_glob w (trace s) footprints_dir ''**/*.shp'' = r \<Longrightarrow>
   cell_fps w s =
     (case r of
        Inl e \<Rightarrow>
          (s\<lparr>base_dir_fp := Some footprints_dir,
             trace := trace s @ [(Glob footprints_dir ''**/*.shp'', Raised e)]\<rparr>, Inl e)
      | Inr ps \<Rightarrow>
          (s\<lparr>base_dir_fp := Some footprints_dir,
             trace := trace s @ [(Glob footprints_dir ''**/*.shp'', Returned)],
             fps := Some (map as_posix ps)\<rparr>, Inr ()))"
  by (simp add: cell_fps_def bind_def load_def assign_def glob_stmt_def display_def ret_def
      lib_call_def outcome_of_def Path_footprints split: sum.splits)

lemma discovered_cell_input: "globs_from fs w \<Longrightarrow> preserves (discovered fs) (cell_input w)"
  unfolding preserves_def
  by (auto simp: cell_input_eq[OF refl] globs_from_def discovered_def)

lemma discovered_cell_fps: "globs_from fs w \<Longrightarrow> preserves (discovered fs) (cell_fps w)"
  unfolding preserves_def
proof (intro allI impI)
  fix s assume g: "globs_from fs w" and d: "discovered fs s"
  show "discovered fs (fst (cell_fps w s))"
  proof (cases "data_dir s = Some the_data_dir \<and> filename s = Some ''*.shp''")
    case True
    with g d show ?thesis
      by (auto simp: cell_fps_eq[OF _ _ refl] globs_from_def discovered_def)
  next
    case False
    with d have "data_dir s = None \<or> filename s = None" by (auto simp: discovered_def)
    with d show ?thesis
      by (auto simp: cell_fps_def bind_def load_def assign_def glob_stmt_def discovered_def
          split: option.splits)
  qed
qed

lemma discovered_notebook:
  assumes "globs_from fs w" and "c \<in> set (notebook w)"
  shows "preserves (discovered fs) c"
proof -
  have ig: "ignores (discovered fs) trace_update" "ignores (discovered fs) heap_update"
    "ignores (discovered fs) shp_update" "ignores (discovered fs) footprint_update"
    "ignores (discovered fs) ax_update" "ignores (discovered fs) shp1_update"
    "ignores (discovered fs) shp2_update" "ignores (discovered fs) config_update"
    "ignores (discovered fs) stager_update"
    by (simp_all add: ignores_def discovered_def)
  from assms show ?thesis
    by (auto simp: notebook_def cell_plot_first_def cell_plot_second_def cell_plot_third_def
        intro!: discovered_cell_input discovered_cell_fps frame_cell_imports
          frame_cell_plot_pair frame_cell_plot_adjacent frame_cell_config frame_cell_stager
          frame_cell_stage_all frame_cell_rasterize ig)
qed

lemma discovered_first_cells:
  assumes "globs_from fs w"
  shows "discovered fs (fst (first_cells n w))"
proof -
  have "preserves (discovered fs) (in_order (take n (notebook w)))"
    by (rule preserves_in_order) (blast dest: in_set_takeD intro: discovered_notebook[OF assms])
  moreover have "discovered fs fresh_kernel"
    by (simp add: discovered_def fresh_kernel_def)
  ultimately show ?thesis
    unfolding first_cells_def by (rule preservesD)
qed
lemma fnmatchcase_star:
  "fnmatchcase n (CHR ''*'' # p) \<longleftrightarrow>
     fnmatchcase n p \<or> (case n of [] \<Rightarrow> False | _ # t \<Rightarrow> fnmatchcase t (CHR ''*'' # p))"
  by (subst fnmatchcase.simps) simp

lemma fnmatchcase_char:
  "c \<noteq> CHR ''*'' \<Longrightarrow> fnmatchcase n (c # p) \<longleftrightarrow>
     (case n of [] \<Rightarrow> False | d # t \<Rightarrow> (c = CHR ''?'' \<or> c = d) \<and> fnmatchcase t p)"
  by (subst fnmatchcase.simps) simp

lemma fnmatchcase_literal:
  "CHR ''*'' \<notin> set p \<Longrightarrow> CHR ''?'' \<notin> set p \<Longrightarrow> fnmatchcase n p \<longleftrightarrow> n = p"
proof (induction p arbitrary: n)
  case Nil
  show ?case by (auto simp: fnmatchcase.simps(1))
next
  case (Cons c p)
  from Cons.prems have c: "c \<noteq> CHR ''*''" "c \<noteq> CHR ''?''"
    and p: "CHR ''*'' \<notin> set p" "CHR ''?'' \<notin> set p"
    by auto
  note IH = Cons.IH[OF p]
  show ?case
  proof (cases n)
    case Nil
    then show ?thesis using c by (simp add: fnmatchcase_char)
  next
    case (Cons d t)
    then show ?thesis using c IH[of t] by (auto simp add: fnmatchcase_char)
  qed
qed

lemma fnmatchcase_star_literal:
  assumes "CHR ''*'' \<notin> set p" "CHR ''?'' \<notin> set p"
  shows "fnmatchcase n (CHR ''*'' # p) \<longleftrightarrow> suffix p n"
proof (induction n)
  case Nil
  show ?case using assms by (subst fnmatchcase_star) (auto simp: fnmatchcase_literal)
next
  case (Cons x n)
  have "fnmatchcase (x # n) (CHR ''*'' # p) \<longleftrightarrow> x # n = p \<or> fnmatchcase n (CHR ''*'' # p)"
    using assms by (subst fnmatchcase_star) (simp add: fnmatchcase_literal)
  with Cons show ?case by (auto simp add: suffix_Cons)
qed

lemma fnmatchcase_shp: "fnmatchcase n ''*.shp'' \<longleftrightarrow> suffix ''.shp'' n"
  by (rule fnmatchcase_star_literal) simp_all

lemma match_parts_single:
  "p \<noteq> ''**'' \<Longrightarrow> match_parts [p] cs \<longleftrightarrow> (\<exists>c. cs = [c] \<and> fnmatchcase c p)"
  by (cases cs) (auto simp: match_parts.simps split: list.splits)

lemma match_parts_recursive:
  "p \<noteq> ''**'' \<Longrightarrow> match_parts [''**'', p] cs \<longleftrightarrow> cs \<noteq> [] \<and> fnmatchcase (last cs) p"
proof (induction cs)
  case Nil
  then show ?case by (simp add: match_parts.simps)
next
  case (Cons c cs)
  have "match_parts [''**'', p] (c # cs) \<longleftrightarrow>
          match_parts [p] (c # cs) \<or> match_parts [''**'', p] cs"
    by (subst match_parts.simps) simp
  with Cons show ?case by (cases cs) (auto simp: match_parts_single)
qed

lemma pattern_parts:
  "filter (\<lambda>c. c \<noteq> []) (split_on CHR ''/'' ''**/*.shp'') = [''**'', ''*.shp'']"
  by simp

lemma glob_entries_shp:
  "glob_entries fs base ''**/*.shp'' =
     filter (\<lambda>p. below base p \<and> length (parts base) < length (parts p) \<and>
                 suffix ''.shp'' (last (parts p))) fs"
proof -
  have "drop (length (parts base)) (parts p) \<noteq> [] \<Longrightarrow>
        last (drop (length (parts base)) (parts p)) = last (parts p)" for p
    by simp
  then show ?thesis
    unfolding glob_entries_def pattern_parts
    by (auto simp: match_parts_recursive fnmatchcase_shp intro!: filter_cong)
qed

lemma suffix_last_join: "ps \<noteq> [] \<Longrightarrow> suffix (last ps) (join_with sep ps)"
  by (induction sep ps rule: join_with.induct) (auto simp: suffix_append)

lemma suffix_last_as_posix: "parts p \<noteq> [] \<Longrightarrow> suffix (last (parts p)) (as_posix p)"
  by (auto simp: as_posix_def suffix_append dest: suffix_last_join)

lemma glob_names_end_in_shp:
  assumes "x \<in> set (map as_posix (glob_entries fs base ''**/*.shp''))"
  shows "suffix ''.shp'' x"
proof -
  from assms obtain p where p: "x = as_posix p" "length (parts base) < length (parts p)"
      "suffix ''.shp'' (last (parts p))"
    by (auto simp: glob_entries_shp)
  then have "parts p \<noteq> []" by auto
  then have "suffix (last (parts p)) (as_posix p)" by (rule suffix_last_as_posix)
  with p(3) have "suffix ''.shp'' (as_posix p)" by (rule suffix_order.trans)
  with p(1) show ?thesis by simp
qed

text \<open>
  Claim C3. Over a POSIX file system with the entries \<open>fs\<close>, whenever \<open>input\<close> is
  bound it is the list of the paths that \<open>**/*.shp\<close> matches under
  \<open>data_dir + 'iwp'\<close>, written as POSIX strings: the entries below that directory
  whose name ends in \<open>.shp\<close>, and no other. The same holds of \<open>fps\<close> and
  \<open>data_dir + 'footprints'\<close>.
\<close>

theorem discovery_selects_the_shapefiles:
  assumes "globs_from fs w"
  shows "(input (fst (first_cells n w)) = Some xs \<longrightarrow>
            xs = map as_posix (glob_entries fs (Path (the_data_dir @ ''iwp'')) ''**/*.shp'') \<and>
            set xs = as_posix ` {p \<in> set fs. below (Path (the_data_dir @ ''iwp'')) p \<and>
                       length (parts (Path (the_data_dir @ ''iwp''))) < length (parts p) \<and>
                       suffix ''.shp'' (last (parts p))}) \<and>
         (fps (fst (first_cells n w)) = Some ys \<longrightarrow>
            ys = map as_posix
                   (glob_entries fs (Path (the_data_dir @ ''footprints'')) ''**/*.shp'') \<and>
            set ys = as_posix ` {p \<in> set fs. below (Path (the_data_dir @ ''footprints'')) p \<and>
                       length (parts (Path (the_data_dir @ ''footprints''))) < length (parts p) \<and>
                       suffix ''.shp'' (last (parts p))})"
  using discovered_first_cells[OF assms, of n]
  by (auto simp: discovered_def Path_iwp Path_footprints glob_entries_shp)

subsection \<open>The configuration display\<close>

lemma dict_set_new: "k \<notin> fst ` set d \<Longrightarrow> dict_set d k v = d @ [(k, v)]"
  by (induction d) auto

lemma dict_display_from:
  "distinct (map fst (acc @ items)) \<Longrightarrow>
   foldl (\<lambda>d (k, v). dict_set d k v) acc items = acc @ items"
proof (induction items arbitrary: acc)
  case Nil
  show ?case by simp
next
  case (Cons kv items)
  obtain k v where kv: "kv = (k, v)" by (cases kv)
  from Cons.prems kv have "k \<notin> fst ` set acc" by auto
  then have "dict_set acc k v = acc @ [(k, v)]" by (rule dict_set_new)
  with Cons.IH[of "acc @ [(k, v)]"] Cons.prems kv show ?case by simp
qed

lemma dict_display_distinct: "distinct (map fst items) \<Longrightarrow> dict_display items = items"
  using dict_display_from[of "[]" items] by (simp add: dict_display_def)

lemma statistic_display: "dict_display statistic_items = statistic_items"
  by (rule dict_display_distinct) (simp add: statistic_items_def)

lemma config_display: "dict_display (config_items d) = config_items d"
  by (rule dict_display_distinct) (simp add: config_items_def)

lemma config_extensions:
  "dict_get the_config ''ext_input'' = Some (PStr ''.shp'')"
  "dict_get the_config ''ext_footprints'' = Some (PStr ''.shp'')"
  unfolding the_config_def config_display
  by (simp_all add: dict_get_def config_items_def)

text \<open>
  Claim C10. Both discovery cells use the one pattern \<open>*.shp\<close> held by \<open>filename\<close>.
  Over every POSIX file system and at every point of the run, every path in \<open>input\<close>
  and every path in \<open>fps\<close> ends in \<open>.shp\<close>, which is the value of
  \<open>ext_input\<close> and of \<open>ext_footprints\<close> in the configuration.
\<close>

theorem discovered_paths_end_in_the_configured_extension:
  assumes "globs_from fs w"
  shows "(filename (fst (first_cells n w)) = None \<or>
          filename (fst (first_cells n w)) = Some ''*.shp'') \<and>
         dict_get the_config ''ext_input'' = Some (PStr ''.shp'') \<and>
         dict_get the_config ''ext_footprints'' = Some (PStr ''.shp'') \<and>
         (input (fst (first_cells n w)) = Some xs \<longrightarrow> (\<forall>p\<in>set xs. suffix ''.shp'' p)) \<and>
         (fps (fst (first_cells n w)) = Some ys \<longrightarrow> (\<forall>p\<in>set ys. suffix ''.shp'' p))"
proof -
  note d = discovered_first_cells[OF assms, of n]
  have "suffix ''.shp'' p"
    if "input (fst (first_cells n w)) = Some xs" "p \<in> set xs" for p
  proof -
    from d that(1) have "xs = map as_posix (glob_entries fs iwp_dir ''**/*.shp'')"
      by (simp add: discovered_def)
    with that(2) show ?thesis by (blast intro: glob_names_end_in_shp)
  qed
  moreover have "suffix ''.shp'' p"
    if "fps (fst (first_cells n w)) = Some ys" "p \<in> set ys" for p
  proof -
    from d that(1) have "ys = map as_posix (glob_entries fs footprints_dir ''**/*.shp'')"
      by (simp add: discovered_def)
    with that(2) show ?thesis by (blast intro: glob_names_end_in_shp)
  qed
  moreover from d have "filename (fst (first_cells n w)) = None \<or>
          filename (fst (first_cells n w)) = Some ''*.shp''"
    by (simp add: discovered_def)
  ultimately show ?thesis by (simp add: config_extensions)
qed

subsection \<open>The keys of the configuration\<close>

lemma config_keys:
  "dict_keys (dict_display (config_items d)) =
     [''deduplicate_clip_to_footprint'', ''dir_input'', ''ext_input'', ''ext_footprints'',
      ''dir_footprints'', ''dir_staged'', ''dir_geotiff'', ''dir_web_tiles'',
      ''filename_staging_summary'', ''filename_rasterization_events'',
      ''filename_rasters_summary'', ''filename_config'', ''simplify_tolerance'', ''tms_id'',
      ''z_range'', ''geometricError'', ''z_coord'', ''statistics'', ''deduplicate_at'',
      ''deduplicate_keep_rules'', ''deduplicate_method'']"
  unfolding config_display by (simp add: dict_keys_def config_items_def)

text \<open>
  Claim C5. The dictionary the configuration cell builds and binds to \<open>config\<close> has
  every key of the schema: \<open>dir_input\<close>, \<open>ext_input\<close>, \<open>dir_footprints\<close>,
  \<open>ext_footprints\<close>, \<open>dir_staged\<close>, \<open>dir_geotiff\<close>, \<open>dir_web_tiles\<close>,
  \<open>statistics\<close>, \<open>z_range\<close>, \<open>tms_id\<close>, \<open>geometricError\<close>, and a key
  that starts with \<open>deduplicate_\<close>.
\<close>

theorem configuration_has_the_schema_keys:
  "list_all (\<lambda>k. k \<in> set (dict_keys (dict_display (config_items d))))
     [''dir_input'', ''ext_input'', ''dir_footprints'', ''ext_footprints'', ''dir_staged'',
      ''dir_geotiff'', ''dir_web_tiles'', ''statistics'', ''z_range'', ''tms_id'',
      ''geometricError''] \<and>
   list_ex (prefix ''deduplicate_'') (dict_keys (dict_display (config_items d))) \<and>
   cell_config (s\<lparr>data_dir := Some d\<rparr>) =
     (s\<lparr>data_dir := Some d, heap := heap s @ [dict_display (config_items d)],
        config := Some (length (heap s))\<rparr>, Inr ())"
proof (intro conjI)
  show "list_all (\<lambda>k. k \<in> set (dict_keys (dict_display (config_items d))))
     [''dir_input'', ''ext_input'', ''dir_footprints'', ''ext_footprints'', ''dir_staged'',
      ''dir_geotiff'', ''dir_web_tiles'', ''statistics'', ''z_range'', ''tms_id'',
      ''geometricError'']"
    unfolding config_keys by simp
  show "list_ex (prefix ''deduplicate_'') (dict_keys (dict_display (config_items d)))"
    unfolding config_keys by simp
  show "cell_config (s\<lparr>data_dir := Some d\<rparr>) =
     (s\<lparr>data_dir := Some d, heap := heap s @ [dict_display (config_items d)],
        config := Some (length (heap s))\<rparr>, Inr ())"
    by (simp add: cell_config_eq)
qed

subsection \<open>The plotting cells\<close>

lemma in_order_single: "in_order [c] s = c s"
  by (cases "c s") (auto split: sum.splits)

lemma first_cells_Suc:
  "n < length (notebook w) \<Longrightarrow>
   first_cells (Suc n) w =
     (case first_cells n w of (s, Inl e) \<Rightarrow> (s, Inl e) | (s, Inr _) \<Rightarrow> (notebook w ! n) s)"
  by (simp add: first_cells_def take_Suc_conv_app_nth in_order_append in_order_single
      split: prod.splits sum.splits)

lemma first_cells_success:
  assumes "n < length (notebook w)" and "snd (first_cells (Suc n) w) = Inr ()"
  shows "snd (first_cells n w) = Inr () \<and>
         snd ((notebook w ! n) (fst (first_cells n w))) = Inr ()"
  using assms by (auto simp: first_cells_Suc split: prod.splits sum.splits)

lemma length_notebook: "length (notebook w) = 11"
  by (simp add: notebook_def)

lemma read_file_stmt_success:
  "snd (read_file_stmt w files nm i upd s) = Inr () \<Longrightarrow>
   \<exists>xs p. files s = Some xs \<and> py_index xs i = Inr p"
  by (auto simp: read_file_stmt_def bind_def load_def lift_def split: option.splits sum.splits prod.splits)

lemma py_index_ok: "py_index xs i = Inr p \<Longrightarrow> 0 \<le> i \<Longrightarrow> nat i < length xs"
  by (auto simp: py_index_def split: if_splits)

lemma ignores_fps_shp: "ignores (\<lambda>s. fps s = t) trace_update" "ignores (\<lambda>s. fps s = t) shp_update"
  by (simp_all add: ignores_def)

lemma cell_plot_pair_success:
  assumes "snd (cell_plot_pair w i c s) = Inr ()" and "0 \<le> i"
  shows "\<exists>xs ys. input s = Some xs \<and> fps s = Some ys \<and> nat i < length xs \<and> nat i < length ys"
proof -
  let ?m1 = "read_file_stmt w input ''input'' i shp_update"
  let ?m2 = "read_file_stmt w fps ''fps'' i footprint_update"
  obtain s1 r1 where m1: "?m1 s = (s1, r1)" by (cases "?m1 s")
  from assms(1) m1 have r1: "r1 = Inr ()"
    by (auto simp: cell_plot_pair_def split: sum.splits)
  with m1 have "snd (?m1 s) = Inr ()" by simp
  from read_file_stmt_success[OF this] assms(2)
  obtain xs where xs: "input s = Some xs" "nat i < length xs"
    by (auto dest: py_index_ok)
  from assms(1) m1 r1 have "snd (?m2 s1) = Inr ()"
    by (auto simp: cell_plot_pair_def split: sum.splits prod.splits)
  from read_file_stmt_success[OF this] assms(2)
  obtain ys where ys: "fps s1 = Some ys" "nat i < length ys"
    by (auto dest: py_index_ok)
  have "preserves (\<lambda>s'. fps s' = fps s) ?m1"
    by (intro frame_read_file_stmt ignores_fps_shp)
  from preservesD[OF this, of s] m1 have "fps s1 = fps s" by simp
  with xs ys show ?thesis by simp
qed

lemma plotting_needs_three:
  assumes "snd (first_cells 7 w) = Inr ()"
  shows "\<exists>xs ys. input (fst (first_cells 5 w)) = Some xs \<and> fps (fst (first_cells 5 w)) = Some ys
           \<and> 3 \<le> length xs \<and> 3 \<le> length ys"
proof -
  from first_cells_success[of 6 w] assms have 6: "snd (first_cells 6 w) = Inr ()"
    by (simp add: length_notebook eval_nat_numeral)
  have "5 < length (notebook w)" by (simp add: length_notebook)
  from first_cells_success[OF this] 6
  have "snd ((notebook w ! 5) (fst (first_cells 5 w))) = Inr ()"
    by (simp add: eval_nat_numeral)
  then have "snd (cell_plot_pair w 2 ''green'' (fst (first_cells 5 w))) = Inr ()"
    by (simp add: notebook_def cell_plot_third_def)
  from cell_plot_pair_success[OF this] show ?thesis by auto
qed

lemma obligingD:
  assumes "obliging w"
  shows "import_module w h m = Inr ()"
    and "read_file w h p = Inr (projr (read_file w h p))"
    and "plot w h fr a kw = Inr (projr (plot w h fr a kw))"
proof -
  from assms have "\<not> isl (import_module w h m)" "\<not> isl (read_file w h p)"
    "\<not> isl (plot w h fr a kw)"
    by (auto simp: obliging_def)
  then show "import_module w h m = Inr ()"
    and "read_file w h p = Inr (projr (read_file w h p))"
    and "plot w h fr a kw = Inr (projr (plot w h fr a kw))"
    by (cases "import_module w h m"; cases "read_file w h p"; cases "plot w h fr a kw"; simp)+
qed

lemma lib_call_returns:
  "f (trace s) = Inr x \<Longrightarrow> lib_call c f s = (s\<lparr>trace := trace s @ [(c, Returned)]\<rparr>, Inr x)"
  by (simp add: lib_call_def outcome_of_def)

lemma read_file_obliging:
  "obliging w \<Longrightarrow>
   lib_call c (\<lambda>h. read_file w h p) s =
     (s\<lparr>trace := trace s @ [(c, Returned)]\<rparr>, Inr (projr (read_file w (trace s) p)))"
  by (rule lib_call_returns) (rule obligingD)

lemma plot_obliging:
  "obliging w \<Longrightarrow>
   lib_call c (\<lambda>h. plot w h fr a kw) s =
     (s\<lparr>trace := trace s @ [(c, Returned)]\<rparr>, Inr (projr (plot w (trace s) fr a kw)))"
  by (rule lib_call_returns) (rule obligingD)

lemma imports_obliging:
  "obliging w \<Longrightarrow> snd (in_order (map (import_stmt w) ms) s) = Inr ()"
  by (induction ms arbitrary: s)
     (auto simp: import_stmt_def lib_call_def obligingD(1) Let_def)

lemma discovery_obliging:
  assumes "globs_from fs w" and "obliging w"
  shows "\<exists>s3. first_cells 3 w = (s3, Inr ()) \<and>
           input s3 = Some (map as_posix (glob_entries fs iwp_dir ''**/*.shp'')) \<and>
           fps s3 = Some (map as_posix (glob_entries fs footprints_dir ''**/*.shp''))"
proof -
  have "snd (cell_imports w fresh_kernel) = Inr ()"
    unfolding cell_imports_def by (rule imports_obliging[OF assms(2)])
  then obtain s1 where s1: "cell_imports w fresh_kernel = (s1, Inr ())"
    by (cases "cell_imports w fresh_kernel") auto
  from assms(1) have g: "path_glob w h b p = Inr (glob_entries fs b p)" for h b p
    by (simp add: globs_from_def)
  show ?thesis
    by (simp add: first_cells_def notebook_def s1 cell_input_eq[OF refl] g
        cell_fps_eq[OF _ _ refl])
qed

lemma py_index_nat:
  "0 \<le> i \<Longrightarrow> py_index xs i = (if nat i < length xs then Inr (xs ! nat i) else Inl IndexError)"
  by (auto simp: py_index_def)

lemma cell_plot_pair_obliging:
  assumes "obliging w" and "input s = Some xs" and "fps s = Some ys" and "0 \<le> i"
  shows "\<exists>s'. cell_plot_pair w i c s =
            (s', if nat i < length xs \<and> nat i < length ys then Inr () else Inl IndexError) \<and>
          input s' = Some xs \<and> fps s' = Some ys"
  using assms(2-)
  by (simp add: cell_plot_pair_def read_file_stmt_def plot_new_stmt_def plot_on_ax_stmt_def
      bind_def load_def lift_def assign_def ret_def py_index_nat
      read_file_obliging[OF assms(1)] plot_obliging[OF assms(1)])

lemma cell_plot_adjacent_obliging:
  assumes "obliging w" and "input s = Some xs" and "fps s = Some ys"
  shows "\<exists>s'. cell_plot_adjacent w s =
            (s', if 2 < length xs then Inr () else Inl IndexError) \<and>
          input s' = Some xs \<and> fps s' = Some ys"
  using assms(2-)
  by (simp add: cell_plot_adjacent_def read_file_stmt_def plot_new_stmt_def plot_on_ax_stmt_def
      bind_def load_def lift_def assign_def ret_def py_index_nat
      read_file_obliging[OF assms(1)] plot_obliging[OF assms(1)])

lemma plotting_obliging:
  assumes "obliging w" and "input s = Some xs" and "fps s = Some ys"
  shows "snd (in_order [cell_plot_first w, cell_plot_second w, cell_plot_third w,
                        cell_plot_adjacent w] s) =
         (if 3 \<le> length xs \<and> 3 \<le> length ys then Inr () else Inl IndexError)"
proof -
  from cell_plot_pair_obliging[OF assms, of 0 "''green''"] obtain s1 where
    1: "cell_plot_first w s =
          (s1, if 0 < length xs \<and> 0 < length ys then Inr () else Inl IndexError)"
       "input s1 = Some xs" "fps s1 = Some ys"
    by (auto simp: cell_plot_first_def)
  from cell_plot_pair_obliging[OF assms(1) 1(2,3), of 1 "''blue''"] obtain s2 where
    2: "cell_plot_second w s1 =
          (s2, if 1 < length xs \<and> 1 < length ys then Inr () else Inl IndexError)"
       "input s2 = Some xs" "fps s2 = Some ys"
    by (auto simp: cell_plot_second_def)
  from cell_plot_pair_obliging[OF assms(1) 2(2,3), of 2 "''green''"] obtain s3 where
    3: "cell_plot_third w s2 =
          (s3, if 2 < length xs \<and> 2 < length ys then Inr () else Inl IndexError)"
       "input s3 = Some xs" "fps s3 = Some ys"
    by (auto simp: cell_plot_third_def)
  from cell_plot_adjacent_obliging[OF assms(1) 3(2,3)] obtain s4 where
    4: "cell_plot_adjacent w s3 = (s4, if 2 < length xs then Inr () else Inl IndexError)"
    by auto
  show ?thesis
    by (simp add: 1(1) 2(1) 3(1) 4)
qed

text \<open>
  Claim C9. The plotting cells index \<open>input\<close> and \<open>fps\<close> at 0, 1 and 2 without a
  check. Over a POSIX file system, the run gets through the plotting cells only if the
  discovery found at least three detection files and at least three footprint files; and
  when the imports, the file reads and the plots themselves do not raise, it gets through
  them exactly then, and ends in \<open>IndexError\<close> otherwise.
\<close>

theorem plotting_needs_three_files_of_each_kind:
  assumes "globs_from fs w"
  shows "(snd (first_cells 7 w) = Inr () \<longrightarrow>
            3 \<le> length (glob_entries fs (Path (the_data_dir @ ''iwp'')) ''**/*.shp'') \<and>
            3 \<le> length (glob_entries fs (Path (the_data_dir @ ''footprints'')) ''**/*.shp'')) \<and>
         (obliging w \<longrightarrow>
            snd (first_cells 7 w) =
              (if 3 \<le> length (glob_entries fs (Path (the_data_dir @ ''iwp'')) ''**/*.shp'') \<and>
                  3 \<le> length (glob_entries fs (Path (the_data_dir @ ''footprints'')) ''**/*.shp'')
               then Inr () else Inl IndexError))"
proof (intro conjI impI)
  assume ok: "snd (first_cells 7 w) = Inr ()"
  from plotting_needs_three[OF ok] obtain xs ys where
    b: "input (fst (first_cells 5 w)) = Some xs" "fps (fst (first_cells 5 w)) = Some ys"
       "3 \<le> length xs" "3 \<le> length ys"
    by blast
  from discovered_first_cells[OF assms, of 5] b(1,2)
  have "xs = map as_posix (glob_entries fs iwp_dir ''**/*.shp'')"
       "ys = map as_posix (glob_entries fs footprints_dir ''**/*.shp'')"
    by (simp_all add: discovered_def)
  with b(3,4) show "3 \<le> length (glob_entries fs (Path (the_data_dir @ ''iwp'')) ''**/*.shp'')"
    and "3 \<le> length (glob_entries fs (Path (the_data_dir @ ''footprints'')) ''**/*.shp'')"
    by (simp_all add: Path_iwp Path_footprints)
next
  assume ob: "obliging w"
  from discovery_obliging[OF assms ob] obtain s3 where
    s3: "first_cells 3 w = (s3, Inr ())"
        "input s3 = Some (map as_posix (glob_entries fs iwp_dir ''**/*.shp''))"
        "fps s3 = Some (map as_posix (glob_entries fs footprints_dir ''**/*.shp''))"
    by blast
  have "take 7 (notebook w) =
          take 3 (notebook w) @ [cell_plot_first w, cell_plot_second w, cell_plot_third w,
                                 cell_plot_adjacent w]"
    by (simp add: notebook_def)
  then have "first_cells 7 w =
      in_order [cell_plot_first w, cell_plot_second w, cell_plot_third w,
                cell_plot_adjacent w] s3"
    using s3(1) by (simp add: first_cells_def in_order_append)
  with plotting_obliging[OF ob s3(2,3)]
  show "snd (first_cells 7 w) =
              (if 3 \<le> length (glob_entries fs (Path (the_data_dir @ ''iwp'')) ''**/*.shp'') \<and>
                  3 \<le> length (glob_entries fs (Path (the_data_dir @ ''footprints'')) ''**/*.shp'')
               then Inr () else Inl IndexError)"
    by (simp add: Path_iwp Path_footprints)
qed

subsection \<open>The values of the configuration\<close>

lemma the_config_items: "the_config = config_items the_data_dir"
  by (simp add: the_config_def config_display)

text \<open>
  Claim C4, as stated, fails: the configuration is not flat. The value under
  \<open>statistics\<close> is a list that holds a dictionary.
\<close>

theorem configuration_holds_a_nested_mapping:
  "dict_get the_config ''statistics'' = Some (PList [PDict statistic_items]) \<and>
   holds_mapping (PList [PDict statistic_items]) \<and>
   \<not> flat the_config"
  unfolding the_config_items
  by (simp add: flat_def dict_get_def config_items_def statistic_display)

lemma config_values:
  "list_all (\<lambda>kv. plain_value (snd kv)) the_config"
  "map fst (filter (\<lambda>kv. holds_mapping (snd kv)) the_config) = [''statistics'']"
  unfolding the_config_items by (simp_all add: config_items_def)

text \<open>
  Claim C4, amended. Every value of the configuration is a string, a number (\<open>True\<close>
  counted as one) or a list of at most two items, and none is itself a dictionary; the
  only value that holds a dictionary further inside is the list under \<open>statistics\<close>.
  The dictionary reaches \<open>TileStager\<close> as built, and \<open>RasterTiler\<close> as built when
  the stager library did not write to it.
\<close>

theorem configuration_values_and_their_use:
  "list_all (\<lambda>kv. plain_value (snd kv)) the_config \<and>
   map fst (filter (\<lambda>kv. holds_mapping (snd kv)) the_config) = [''statistics''] \<and>
   ((NewTileStager a d, o1) \<in> set (trace (fst (run w))) \<longrightarrow> d = Some the_config) \<and>
   (stager_hands_off w \<and> (NewRasterTiler a' d', o2) \<in> set (trace (fst (run w)))
      \<longrightarrow> d' = Some the_config)"
proof -
  have "d = Some the_config" if "(NewTileStager a d, o1) \<in> set (trace (fst (run w)))"
    using constructor_events[OF that] by simp
  moreover have "d' = Some the_config"
    if "stager_hands_off w" "(NewRasterTiler a' d', o2) \<in> set (trace (fst (run w)))"
    using constructor_events[OF that(2)] that(1) by simp
  ultimately show ?thesis by (simp add: config_values)
qed

subsection \<open>What the notebook rebinds\<close>

lemma notebook_around_input:
  "notebook w = [cell_imports w] @ cell_input w #
     [cell_fps w, cell_plot_first w, cell_plot_second w, cell_plot_third w,
      cell_plot_adjacent w, cell_config, cell_stager w, cell_stage_all w, cell_rasterize w]"
  by (simp add: notebook_def)

lemma notebook_around_fps:
  "notebook w = [cell_imports w, cell_input w] @ cell_fps w #
     [cell_plot_first w, cell_plot_second w, cell_plot_third w,
      cell_plot_adjacent w, cell_config, cell_stager w, cell_stage_all w, cell_rasterize w]"
  by (simp add: notebook_def)

lemma notebook_around_adjacent:
  "notebook w =
     [cell_imports w, cell_input w, cell_fps w, cell_plot_first w, cell_plot_second w,
      cell_plot_third w] @ cell_plot_adjacent w #
     [cell_config, cell_stager w, cell_stage_all w, cell_rasterize w]"
  by (simp add: notebook_def)

lemma notebook_around_stager:
  "notebook w =
     [cell_imports w, cell_input w, cell_fps w, cell_plot_first w, cell_plot_second w,
      cell_plot_third w, cell_plot_adjacent w, cell_config] @ cell_stager w #
     [cell_stage_all w, cell_rasterize w]"
  by (simp add: notebook_def)

lemmas frame_cells = frame_cell_imports frame_cell_input frame_cell_fps frame_cell_plot_pair
  frame_cell_plot_adjacent frame_cell_config frame_cell_stager frame_cell_stage_all
  frame_cell_rasterize

lemmas plot_cell_defs = cell_plot_first_def cell_plot_second_def cell_plot_third_def

lemma discovery_write_once:
  assumes "n \<le> m"
  shows "discovery_vars (fst (first_cells n w)) = (None, None, None, None) \<or>
         discovery_vars (fst (first_cells n w)) = discovery_vars (fst (first_cells m w))"
proof -
  have fr: "preserves (\<lambda>s. discovery_vars s = t) c"
    if "c \<in> set [cell_imports w] \<union>
              set [cell_fps w, cell_plot_first w, cell_plot_second w, cell_plot_third w,
                   cell_plot_adjacent w, cell_config, cell_stager w, cell_stage_all w,
                   cell_rasterize w]"
    for c t
    using that
    by (auto simp: plot_cell_defs intro!: frame_cells)
       (simp_all add: ignores_def discovery_vars_def)
  have "discovery_vars fresh_kernel = (None, None, None, None)"
    by (simp add: fresh_kernel_def discovery_vars_def)
  with write_once[where g=discovery_vars and ?s0.0=fresh_kernel, OF fr assms]
  show ?thesis
    by (simp only: first_cells_def notebook_around_input)
qed

lemma footprint_write_once:
  assumes "n \<le> m"
  shows "footprint_vars (fst (first_cells n w)) = (None, None) \<or>
         footprint_vars (fst (first_cells n w)) = footprint_vars (fst (first_cells m w))"
proof -
  have fr: "preserves (\<lambda>s. footprint_vars s = t) c"
    if "c \<in> set [cell_imports w, cell_input w] \<union>
              set [cell_plot_first w, cell_plot_second w, cell_plot_third w,
                   cell_plot_adjacent w, cell_config, cell_stager w, cell_stage_all w,
                   cell_rasterize w]"
    for c t
    using that
    by (auto simp: plot_cell_defs intro!: frame_cells)
       (simp_all add: ignores_def footprint_vars_def)
  have "footprint_vars fresh_kernel = (None, None)"
    by (simp add: fresh_kernel_def footprint_vars_def)
  with write_once[where g=footprint_vars and ?s0.0=fresh_kernel, OF fr assms]
  show ?thesis
    by (simp only: first_cells_def notebook_around_fps)
qed

lemma adjacent_write_once:
  assumes "n \<le> m"
  shows "adjacent_vars (fst (first_cells n w)) = (None, None) \<or>
         adjacent_vars (fst (first_cells n w)) = adjacent_vars (fst (first_cells m w))"
proof -
  have fr: "preserves (\<lambda>s. adjacent_vars s = t) c"
    if "c \<in> set [cell_imports w, cell_input w, cell_fps w, cell_plot_first w,
                   cell_plot_second w, cell_plot_third w] \<union>
              set [cell_config, cell_stager w, cell_stage_all w, cell_rasterize w]"
    for c t
    using that
    by (auto simp: plot_cell_defs intro!: frame_cells)
       (simp_all add: ignores_def adjacent_vars_def)
  have "adjacent_vars fresh_kernel = (None, None)"
    by (simp add: fresh_kernel_def adjacent_vars_def)
  with write_once[where g=adjacent_vars and ?s0.0=fresh_kernel, OF fr assms]
  show ?thesis
    by (simp only: first_cells_def notebook_around_adjacent)
qed

lemma stager_write_once:
  assumes "n \<le> m"
  shows "stager (fst (first_cells n w)) = None \<or>
         stager (fst (first_cells n w)) = stager (fst (first_cells m w))"
proof -
  have fr: "preserves (\<lambda>s. stager s = t) c"
    if "c \<in> set [cell_imports w, cell_input w, cell_fps w, cell_plot_first w,
                   cell_plot_second w, cell_plot_third w, cell_plot_adjacent w, cell_config] \<union>
              set [cell_stage_all w, cell_rasterize w]"
    for c t
    using that
    by (auto simp: plot_cell_defs intro!: frame_cells)
       (simp_all add: ignores_def)
  have "stager fresh_kernel = None"
    by (simp add: fresh_kernel_def)
  with write_once[where g=stager and ?s0.0=fresh_kernel, OF fr assms]
  show ?thesis
    by (simp only: first_cells_def notebook_around_stager)
qed

lemma settled_variables_stay:
  assumes "n \<le> m"
  shows "keeps_settled (fst (first_cells n w)) (fst (first_cells m w))"
  using discovery_write_once[OF assms, of w] footprint_write_once[OF assms, of w]
    adjacent_write_once[OF assms, of w] config_write_once[OF assms, of w]
    stager_write_once[OF assms, of w]
  by (auto simp: keeps_settled_def discovery_vars_def footprint_vars_def adjacent_vars_def)

text \<open>
  Claim C7, amended. No cell writes to the configuration or binds \<open>config\<close> again:
  the dictionary \<open>TileStager\<close> is given is the one the display built, under the
  reference \<open>config\<close> holds, and so is the one \<open>RasterTiler\<close> is given when the
  stager library did not write to it. Every variable other than \<open>shp\<close>,
  \<open>footprint\<close> and \<open>ax\<close> keeps, once bound, its value to the end of the run.
\<close>

theorem driver_leaves_its_configuration_alone:
  "(n \<le> m \<longrightarrow> keeps_settled (fst (first_cells n w)) (fst (first_cells m w))) \<and>
   ((NewTileStager a d, o1) \<in> set (trace (fst (run w)))
      \<longrightarrow> config (fst (run w)) = Some a \<and> d = Some the_config) \<and>
   (stager_hands_off w \<and> (NewRasterTiler a' d', o2) \<in> set (trace (fst (run w)))
      \<longrightarrow> config (fst (run w)) = Some a' \<and> d' = Some the_config)"
proof -
  have "config (fst (run w)) = Some a \<and> d = Some the_config"
    if "(NewTileStager a d, o1) \<in> set (trace (fst (run w)))"
    using constructor_events[OF that] by simp
  moreover have "config (fst (run w)) = Some a' \<and> d' = Some the_config"
    if "stager_hands_off w" "(NewRasterTiler a' d', o2) \<in> set (trace (fst (run w)))"
    using constructor_events[OF that(2)] that(1) by simp
  ultimately show ?thesis by (simp add: settled_variables_stay)
qed

subsection \<open>The example worlds, evaluated\<close>

lemma example_hands_off: "stager_hands_off (example_world fs)"
  by (simp add: stager_hands_off_def example_world_def)

lemma example_globs: "globs_from fs (example_world fs)"
  by (simp add: globs_from_def example_world_def)

lemma failing_run_length: "length (trace (fst (run failing_world))) = 31"
  by code_simp

lemma failing_run_event:
  "snd (trace (fst (run failing_world)) ! 30) = Raised (LibraryError ''staging failed'')"
  by code_simp

lemma failing_run_outcome: "snd (run failing_world) = Inl (LibraryError ''staging failed'')"
  by code_simp

lemma failing_run_last:
  "snd (last (trace (fst (run failing_world)))) = Raised (LibraryError ''staging failed'')"
  by code_simp

lemmas failing_run_facts =
  failing_run_length failing_run_event failing_run_outcome failing_run_last

lemma example_run_outcome: "snd (run (example_world example_files)) = Inr ()"
  by code_simp

lemma example_run_length: "length (trace (fst (run (example_world example_files)))) = 33"
  by code_simp

lemma example_run_stage:
  "is_stage_all (fst (trace (fst (run (example_world example_files))) ! 30))"
  by code_simp

lemma example_run_rasterize:
  "is_rasterize_all (fst (trace (fst (run (example_world example_files))) ! 32))"
  by code_simp

lemma example_run_stager:
  "(NewTileStager 0 (Some the_config), Returned)
     \<in> set (trace (fst (run (example_world example_files))))"
  by code_simp

lemma example_run_tiler:
  "(NewRasterTiler 0 (Some the_config), Returned)
     \<in> set (trace (fst (run (example_world example_files))))"
  by code_simp

lemma example_run_config: "config (fst (run (example_world example_files))) = Some 0"
  by code_simp

lemmas example_run_facts =
  example_run_outcome example_run_length example_run_stage example_run_rasterize
  example_run_stager example_run_tiler example_run_config

lemma example_input:
  "input (fst (first_cells 3 (example_world example_files))) = Some example_inputs"
  by code_simp

lemma example_fps:
  "fps (fst (first_cells 3 (example_world example_files))) = Some example_footprints"
  by code_simp

lemma example_shp_first:
  "shp (fst (first_cells 4 (example_world example_files))) = Some (Frame 13)"
  by code_simp

lemma example_shp_second:
  "shp (fst (first_cells 5 (example_world example_files))) = Some (Frame 17)"
  by code_simp

lemma sparse_inputs:
  "length (glob_entries sparse_files (Path (the_data_dir @ ''iwp'')) ''**/*.shp'') = 2"
  by code_simp

lemma example_counts:
  "length (glob_entries example_files (Path (the_data_dir @ ''iwp'')) ''**/*.shp'') = 3"
  "length (glob_entries example_files (Path (the_data_dir @ ''footprints'')) ''**/*.shp'') = 3"
  by code_simp+

lemma example_obliging: "obliging (example_world fs)"
  by (simp add: obliging_def example_world_def)

theorem exceptions_leave_the_driver_unchanged_witness:
  "30 < length (trace (fst (run failing_world))) \<and>
   snd (trace (fst (run failing_world)) ! 30) = Raised (LibraryError ''staging failed'') \<and>
   Suc 30 = length (trace (fst (run failing_world))) \<and>
   snd (run failing_world) = Inl (LibraryError ''staging failed'') \<and>
   snd (last (trace (fst (run failing_world)))) = Raised (LibraryError ''staging failed'')"
  using exceptions_leave_the_driver_unchanged [of 30 failing_world "LibraryError ''staging failed''"]
  by (simp add: failing_run_facts)

theorem staging_precedes_rasterization_witness:
  "32 < length (trace (fst (run (example_world example_files)))) \<and>
   is_rasterize_all (fst (trace (fst (run (example_world example_files))) ! 32)) \<and>
   (\<exists>j<32. is_stage_all (fst (trace (fst (run (example_world example_files))) ! j))) \<and>
   snd (run (example_world example_files)) = Inr () \<and>
   (\<exists>j i. j < i \<and> i < length (trace (fst (run (example_world example_files)))) \<and>
      is_stage_all (fst (trace (fst (run (example_world example_files))) ! j)) \<and>
      is_rasterize_all (fst (trace (fst (run (example_world example_files))) ! i)))"
  using staging_precedes_rasterization [of 32 "example_world example_files"]
  by (simp add: example_run_facts)

theorem one_configuration_for_both_stages_witness:
  "(NewTileStager 0 (Some the_config), Returned)
     \<in> set (trace (fst (run (example_world example_files)))) \<and>
   (NewRasterTiler 0 (Some the_config), Returned)
     \<in> set (trace (fst (run (example_world example_files)))) \<and>
   stager_hands_off (example_world example_files) \<and>
   config (fst (run (example_world example_files))) = Some 0 \<and>
   (\<forall>n. config (fst (first_cells n (example_world example_files))) = None \<or>
        config (fst (first_cells n (example_world example_files))) = Some 0)"
  using one_configuration_for_both_stages
    [of 0 "Some the_config" Returned "example_world example_files" 0 "Some the_config" Returned]
  by (simp add: example_run_facts example_hands_off)

theorem discovery_selects_the_shapefiles_witness:
  "globs_from example_files (example_world example_files) \<and>
   input (fst (first_cells 3 (example_world example_files))) = Some example_inputs \<and>
   example_inputs =
     map as_posix (glob_entries example_files (Path (the_data_dir @ ''iwp'')) ''**/*.shp'') \<and>
   fps (fst (first_cells 3 (example_world example_files))) = Some example_footprints \<and>
   example_footprints =
     map as_posix
       (glob_entries example_files (Path (the_data_dir @ ''footprints'')) ''**/*.shp'')"
  using discovery_selects_the_shapefiles
    [OF example_globs, of 3 example_files example_inputs example_footprints]
  by (simp add: example_input example_fps example_globs)

theorem discovered_paths_end_in_the_configured_extension_witness:
  "globs_from example_files (example_world example_files) \<and>
   input (fst (first_cells 3 (example_world example_files))) = Some example_inputs \<and>
   fps (fst (first_cells 3 (example_world example_files))) = Some example_footprints \<and>
   length example_inputs = 3 \<and> length example_footprints = 3 \<and>
   list_all (suffix ''.shp'') example_inputs \<and>
   list_all (suffix ''.shp'') example_footprints"
  using discovered_paths_end_in_the_configured_extension
    [OF example_globs, of 3 example_files example_inputs example_footprints]
  by (simp add: example_input example_fps example_globs list_all_iff)
     (simp add: example_inputs_def example_footprints_def)

theorem plotting_needs_three_files_of_each_kind_witness:
  "globs_from example_files (example_world example_files) \<and>
   obliging (example_world example_files) \<and>
   3 \<le> length (glob_entries example_files (Path (the_data_dir @ ''iwp'')) ''**/*.shp'') \<and>
   3 \<le> length (glob_entries example_files (Path (the_data_dir @ ''footprints'')) ''**/*.shp'') \<and>
   snd (first_cells 7 (example_world example_files)) = Inr () \<and>
   globs_from sparse_files (example_world sparse_files) \<and>
   obliging (example_world sparse_files) \<and>
   \<not> 3 \<le> length (glob_entries sparse_files (Path (the_data_dir @ ''iwp'')) ''**/*.shp'') \<and>
   snd (first_cells 7 (example_world sparse_files)) = Inl IndexError"
  using plotting_needs_three_files_of_each_kind [OF example_globs, of example_files]
    plotting_needs_three_files_of_each_kind [OF example_globs, of sparse_files]
  by (simp add: example_globs example_obliging example_counts sparse_inputs)

theorem configuration_values_and_their_use_witness:
  "(NewTileStager 0 (Some the_config), Returned)
     \<in> set (trace (fst (run (example_world example_files)))) \<and>
   stager_hands_off (example_world example_files) \<and>
   (NewRasterTiler 0 (Some the_config), Returned)
     \<in> set (trace (fst (run (example_world example_files)))) \<and>
   list_all (\<lambda>kv. plain_value (snd kv)) the_config \<and>
   map fst (filter (\<lambda>kv. holds_mapping (snd kv)) the_config) = [''statistics'']"
  using configuration_values_and_their_use
    [of 0 "Some the_config" Returned "example_world example_files" 0 "Some the_config" Returned]
  by (simp add: example_run_facts example_hands_off)

text \<open>
  Claim C7, as stated, fails: the notebook does change state of its own. The second
  plotting cell binds \<open>shp\<close>, which the first had bound, to another data frame.
\<close>

theorem plotting_cells_rebind_their_variables:
  "shp (fst (first_cells 4 (example_world example_files))) = Some (Frame 13) \<and>
   shp (fst (first_cells 5 (example_world example_files))) = Some (Frame 17) \<and>
   \<not> keeps_bindings (fst (first_cells 4 (example_world example_files)))
                    (fst (first_cells 5 (example_world example_files)))"
  by (simp add: keeps_bindings_def example_shp_first example_shp_second)

theorem driver_leaves_its_configuration_alone_witness:
  "(3::nat) \<le> 11 \<and>
   input (fst (first_cells 3 (example_world example_files))) = Some example_inputs \<and>
   keeps_settled (fst (first_cells 3 (example_world example_files)))
                 (fst (first_cells 11 (example_world example_files))) \<and>
   (NewTileStager 0 (Some the_config), Returned)
     \<in> set (trace (fst (run (example_world example_files)))) \<and>
   stager_hands_off (example_world example_files) \<and>
   (NewRasterTiler 0 (Some the_config), Returned)
     \<in> set (trace (fst (run (example_world example_files)))) \<and>
   config (fst (run (example_world example_files))) = Some 0"
  using driver_leaves_its_configuration_alone
    [of 3 11 "example_world example_files" 0 "Some the_config" Returned 0 "Some the_config"
        Returned]
  by (simp add: example_run_facts example_hands_off example_input)

end
